theory Spec2Isabelle
  imports Main "HOL-Library.Sublist" "HOL-Library.AList" "HOL-Library.Monad_Syntax"
begin

section \<open>The Server-dialect adapter of bitbucket-mcp (src/server-adapter.ts)\<close>

text \<open>
  The adapter is a class of pure string and JSON transformations. Strings are modelled as
  \<open>string\<close> (a list of characters); every pattern of the source is an ASCII literal, so the
  matching below does not depend on the encoding of the other characters.
\<close>

subsection \<open>String primitives of the source language\<close>

text \<open>\<^verbatim>\<open>s.includes(sub)\<close>: \<open>sub\<close> occurs somewhere in \<open>s\<close>.\<close>

fun js_includes :: "string \<Rightarrow> string \<Rightarrow> bool" where
  "js_includes [] sub = (sub = [])"
| "js_includes (c # cs) sub = (prefix sub (c # cs) \<or> js_includes cs sub)"

text \<open>
  \<^verbatim>\<open>s.replace(pat, rep)\<close> with a string pattern: only the first occurrence of \<open>pat\<close> is
  replaced. No replacement string of the source with a string pattern contains a dollar sign.
\<close>

fun js_replace :: "string \<Rightarrow> string \<Rightarrow> string \<Rightarrow> string" where
  "js_replace [] pat rep = (if pat = [] then rep else [])"
| "js_replace (c # cs) pat rep =
     (if prefix pat (c # cs) then rep @ drop (length pat) (c # cs)
      else c # js_replace cs pat rep)"

text \<open>The character class \<^verbatim>\<open>[^\/]\<close> and a greedy run \<^verbatim>\<open>[^\/]+\<close> of it.\<close>

definition not_slash :: "char \<Rightarrow> bool" where
  "not_slash c = (c \<noteq> CHR ''/'')"

definition segment :: "string \<Rightarrow> string" where
  "segment s = takeWhile not_slash s"

definition after_segment :: "string \<Rightarrow> string" where
  "after_segment s = dropWhile not_slash s"

text \<open>
  \<^verbatim>\<open>^<lit>([^\/]+)$\<close>: the literal, then one non-empty run without a slash up to the end of
  the string. Used with the literals \<^verbatim>\<open>/repositories/\<close> and \<^verbatim>\<open>/workspaces/\<close>.
  The result is the captured group.
\<close>

definition match_one_segment :: "string \<Rightarrow> string \<Rightarrow> string option" where
  "match_one_segment lit url =
     (if prefix lit url then
        (let rest = drop (length lit) url in
         if rest \<noteq> [] \<and> after_segment rest = [] then Some rest else None)
      else None)"

text \<open>
  \<^verbatim>\<open>^\/repositories\/([^\/]+)\/([^\/]+)\<close>: two non-empty runs separated by one slash. The
  greedy first run stops at the first slash, and no shorter run can be followed by a slash,
  so the match is unique. The result is the two groups and the unmatched remainder.
\<close>

definition match_repo_prefix :: "string \<Rightarrow> (string \<times> string \<times> string) option" where
  "match_repo_prefix url =
     (if prefix ''/repositories/'' url then
        (let rest = drop (length ''/repositories/'') url in
         case after_segment rest of
           [] \<Rightarrow> None
         | _ # rest2 \<Rightarrow>
             if segment rest \<noteq> [] \<and> segment rest2 \<noteq> []
             then Some (segment rest, segment rest2, after_segment rest2)
             else None)
      else None)"

text \<open>\<^verbatim>\<open>^\/repositories\/([^\/]+)\/([^\/]+)$\<close>: the same, anchored at the end.\<close>

definition match_single_repo :: "string \<Rightarrow> (string \<times> string) option" where
  "match_single_repo url =
     (case match_repo_prefix url of
        Some (ws, repo, rest) \<Rightarrow> if rest = [] then Some (ws, repo) else None
      | None \<Rightarrow> None)"

text \<open>
  \<^verbatim>\<open>url.replace(/^\/repositories\/([^\/]+)\/([^\/]+)/, '/rest/api/1.0/projects/$1/repos/$2')\<close>:
  the matched prefix is replaced, the remainder kept; without a match the string is unchanged.
\<close>

definition replace_repo_prefix :: "string \<Rightarrow> string" where
  "replace_repo_prefix url =
     (case match_repo_prefix url of
        Some (ws, repo, rest) \<Rightarrow> ''/rest/api/1.0/projects/'' @ ws @ ''/repos/'' @ repo @ rest
      | None \<Rightarrow> url)"

subsection \<open>transformUrl\<close>

definition transformUrl :: "string \<Rightarrow> string" where
  "transformUrl url =
     (case match_one_segment ''/repositories/'' url of
        Some ws \<Rightarrow> ''/rest/api/1.0/projects/'' @ ws @ ''/repos''
      | None \<Rightarrow>
     (case match_single_repo url of
        Some (ws, repo) \<Rightarrow> ''/rest/api/1.0/projects/'' @ ws @ ''/repos/'' @ repo
      | None \<Rightarrow>
      if js_includes url ''/diffstat'' then
        js_replace
          (replace_repo_prefix (js_replace url ''/pullrequests/'' ''/pull-requests/''))
          ''/diffstat'' ''/changes''
      else if js_includes url ''/diff'' \<and> js_includes url ''/pullrequests/'' then
        replace_repo_prefix (js_replace url ''/pullrequests/'' ''/pull-requests/'')
      else if js_includes url ''/pullrequests/'' \<and> js_includes url ''/comments'' then
        js_replace
          (replace_repo_prefix (js_replace url ''/pullrequests/'' ''/pull-requests/''))
          ''/comments'' ''/activities''
      else if js_includes url ''/pullrequests/'' \<and> js_includes url ''/activity'' then
        js_replace
          (replace_repo_prefix (js_replace url ''/pullrequests/'' ''/pull-requests/''))
          ''/activity'' ''/activities''
      else if js_includes url ''/pullrequests'' then
        replace_repo_prefix (js_replace url ''/pullrequests'' ''/pull-requests'')
      else if url = ''/workspaces'' then ''/rest/api/1.0/projects''
      else
     (case match_one_segment ''/workspaces/'' url of
        Some ws \<Rightarrow> ''/rest/api/1.0/projects/'' @ ws
      | None \<Rightarrow>
      if js_includes url ''/branching-model'' then
        js_replace (js_replace url ''/workspaces/'' ''/rest/api/1.0/projects/'')
          ''/branching-model'' ''/restrictions''
      else url)))"

text \<open>
  Unanchored searches. \<^verbatim>\<open>/<lit>[^\/]+$/\<close> succeeds when some occurrence of the literal is
  followed by one non-empty run without a slash that reaches the end of the string (used
  with \<^verbatim>\<open>/projects/\<close>). \<^verbatim>\<open>s.match(/<lit>([^\/]+)/)?.[1]\<close> yields the run after the
  leftmost occurrence of the literal that is followed by at least one such character
  (used with \<^verbatim>\<open>/repos/\<close> and \<^verbatim>\<open>/projects/\<close>).
\<close>

fun ends_with_segment :: "string \<Rightarrow> string \<Rightarrow> bool" where
  "ends_with_segment lit [] = False"
| "ends_with_segment lit (c # cs) =
     (match_one_segment lit (c # cs) \<noteq> None \<or> ends_with_segment lit cs)"

fun search_capture :: "string \<Rightarrow> string \<Rightarrow> string option" where
  "search_capture lit [] = None"
| "search_capture lit (c # cs) =
     (if prefix lit (c # cs) \<and> segment (drop (length lit) (c # cs)) \<noteq> []
      then Some (segment (drop (length lit) (c # cs)))
      else search_capture lit cs)"

text \<open>
  \<^verbatim>\<open>s.toLowerCase()\<close> on the ASCII letters \<^verbatim>\<open>A\<close> to \<^verbatim>\<open>Z\<close>; every other character is kept. The
  source method also lower-cases letters outside ASCII, so the model is exact only for keys
  whose letters are ASCII. It is used for the \<^verbatim>\<open>slug\<close> of a workspace only.
\<close>

definition lower_char :: "char \<Rightarrow> char" where
  "lower_char c =
     (case map_of (zip ''ABCDEFGHIJKLMNOPQRSTUVWXYZ'' ''abcdefghijklmnopqrstuvwxyz'') c of
        Some d \<Rightarrow> d
      | None \<Rightarrow> c)"

text \<open>
  Decimal notation of an integer. A template literal prints a number so when it is an
  integer of magnitude below \<^verbatim>\<open>2^53\<close>, which is the case of identifiers and line counts; for
  larger magnitudes the source language rounds the number and, from \<^verbatim>\<open>1e21\<close> on, prints an
  exponent, which the model does not follow.
\<close>

definition digit_char :: "nat \<Rightarrow> char" where
  "digit_char d = ''0123456789'' ! d"

fun string_of_nat :: "nat \<Rightarrow> string" where
  "string_of_nat n =
     (if n < 10 then [digit_char n]
      else string_of_nat (n div 10) @ [digit_char (n mod 10)])"

definition string_of_int :: "int \<Rightarrow> string" where
  "string_of_int i = (if i < 0 then CHR ''-'' # string_of_nat (nat (- i)) else string_of_nat (nat i))"

subsection \<open>Values of type \<^verbatim>\<open>any\<close>\<close>

text \<open>
  Payloads are parsed JSON: objects are association lists in insertion order, numbers are
  integers (identifiers and line counts; fractions are not modelled, and the printed form
  is exact below \<^verbatim>\<open>2^53\<close> only). \<open>JFun\<close> is a built-in
  method read as a value without being called, which a payload never holds but
  \<^verbatim>\<open>change.path.toString\<close> can produce. A thrown \<^verbatim>\<open>TypeError\<close> is the result \<open>None\<close>.
\<close>

datatype js =
    JUndefined
  | JNull
  | JBool bool
  | JNum int
  | JStr string
  | JArr "js list"
  | JObj "(string \<times> js) list"
  | JFun string

fun nullish :: "js \<Rightarrow> bool" where
  "nullish JUndefined = True"
| "nullish JNull = True"
| "nullish _ = False"

fun truthy :: "js \<Rightarrow> bool" where
  "truthy JUndefined = False"
| "truthy JNull = False"
| "truthy (JBool b) = b"
| "truthy (JNum n) = (n \<noteq> 0)"
| "truthy (JStr s) = (s \<noteq> [])"
| "truthy _ = True"

text \<open>\<^verbatim>\<open>a || b\<close> where evaluating \<open>b\<close> cannot throw.\<close>

definition js_or :: "js \<Rightarrow> js \<Rightarrow> js" where
  "js_or a b = (if truthy a then a else b)"

definition lookup :: "(string \<times> js) list \<Rightarrow> string \<Rightarrow> js" where
  "lookup kvs k = (case map_of kvs k of Some v \<Rightarrow> v | None \<Rightarrow> JUndefined)"

text \<open>
  What a property name that the adapter reads finds on the prototype chain when the value
  has no own property of that name: every value inherits \<^verbatim>\<open>toString\<close>, an array has
  \<^verbatim>\<open>values\<close>, a function has a \<^verbatim>\<open>name\<close>. None of the other names read by the source is
  inherited.
\<close>

fun inherited :: "js \<Rightarrow> string \<Rightarrow> js" where
  "inherited (JArr xs) k =
     (if k = ''toString'' then JFun ''toString'' else if k = ''values'' then JFun ''values''
      else JUndefined)"
| "inherited (JFun f) k =
     (if k = ''toString'' then JFun ''toString'' else if k = ''name'' then JStr f
      else JUndefined)"
| "inherited v k = (if k = ''toString'' then JFun ''toString'' else JUndefined)"

text \<open>
  \<^verbatim>\<open>x?.k\<close> is \<open>opt_get x k\<close>: \<^verbatim>\<open>undefined\<close> on \<^verbatim>\<open>null\<close> and \<^verbatim>\<open>undefined\<close>. \<^verbatim>\<open>x.k\<close> is \<open>get x k\<close>,
  which throws there.
\<close>

fun opt_get :: "js \<Rightarrow> string \<Rightarrow> js" where
  "opt_get JUndefined k = JUndefined"
| "opt_get JNull k = JUndefined"
| "opt_get (JObj kvs) k = (case map_of kvs k of Some v \<Rightarrow> v | None \<Rightarrow> inherited (JObj kvs) k)"
| "opt_get v k = inherited v k"

definition get :: "js \<Rightarrow> string \<Rightarrow> js option" where
  "get x k = (if nullish x then None else Some (opt_get x k))"

text \<open>\<^verbatim>\<open>x?.[0]\<close>.\<close>

fun index0 :: "js \<Rightarrow> js" where
  "index0 (JArr (x # xs)) = x"
| "index0 (JStr (c # cs)) = JStr [c]"
| "index0 (JObj kvs) = lookup kvs ''0''"
| "index0 _ = JUndefined"

text \<open>
  \<^verbatim>\<open>x.k = v\<close> in strict mode (a class body): it throws on \<^verbatim>\<open>null\<close>, \<^verbatim>\<open>undefined\<close> and on a
  primitive. An existing key keeps its place, a new key goes last.
\<close>

fun set_prop :: "js \<Rightarrow> string \<Rightarrow> js \<Rightarrow> js option" where
  "set_prop (JObj kvs) k v = Some (JObj (AList.update k v kvs))"
| "set_prop _ k v = None"

text \<open>
  The string a template literal interpolates. An array joins its elements with commas
  (\<^verbatim>\<open>null\<close> and \<^verbatim>\<open>undefined\<close> as the empty string); an object prints as
  \<^verbatim>\<open>[object Object]\<close>, unless it has an own \<^verbatim>\<open>toString\<close> property, which in a payload is not
  callable, so the conversion throws.
\<close>

fun join_commas :: "string list \<Rightarrow> string" where
  "join_commas [] = []"
| "join_commas [s] = s"
| "join_commas (s # t # ss) = s @ '','' @ join_commas (t # ss)"

fun to_string :: "js \<Rightarrow> string option" where
  "to_string JUndefined = Some ''undefined''"
| "to_string JNull = Some ''null''"
| "to_string (JBool b) = Some (if b then ''true'' else ''false'')"
| "to_string (JNum n) = Some (string_of_int n)"
| "to_string (JStr s) = Some s"
| "to_string (JArr xs) =
     map_option join_commas
       (those (map (\<lambda>x. if nullish x then Some [] else to_string x) xs))"
| "to_string (JObj kvs) =
     (case map_of kvs ''toString'' of None \<Rightarrow> Some ''[object Object]'' | Some _ \<Rightarrow> None)"
| "to_string (JFun f) = Some (''function '' @ f @ ''() { [native code] }'')"

text \<open>\<^verbatim>\<open>x.toLowerCase()\<close>: only a string has the method.\<close>

fun toLowerCase :: "js \<Rightarrow> js option" where
  "toLowerCase (JStr s) = Some (JStr (map lower_char s))"
| "toLowerCase _ = None"

text \<open>
  \<^verbatim>\<open>x.map(f)\<close> and \<^verbatim>\<open>x.filter(p)\<close>: only an array has the methods; a callback that throws
  ends the whole call.
\<close>

definition js_map :: "(js \<Rightarrow> js option) \<Rightarrow> js \<Rightarrow> js option" where
  "js_map f x = (case x of JArr xs \<Rightarrow> map_option JArr (those (map f xs)) | _ \<Rightarrow> None)"

fun filter_list :: "(js \<Rightarrow> bool option) \<Rightarrow> js list \<Rightarrow> js list option" where
  "filter_list p [] = Some []"
| "filter_list p (x # xs) =
     (case p x of
        None \<Rightarrow> None
      | Some b \<Rightarrow> map_option (\<lambda>ys. if b then x # ys else ys) (filter_list p xs))"

definition js_filter :: "(js \<Rightarrow> bool option) \<Rightarrow> js \<Rightarrow> js option" where
  "js_filter p x = (case x of JArr xs \<Rightarrow> map_option JArr (filter_list p xs) | _ \<Rightarrow> None)"

text \<open>\<^verbatim>\<open>x?.map(f) || []\<close>.\<close>

definition js_opt_map_or_empty :: "(js \<Rightarrow> js option) \<Rightarrow> js \<Rightarrow> js option" where
  "js_opt_map_or_empty f x = (if nullish x then Some (JArr []) else js_map f x)"

subsection \<open>transformParams\<close>

text \<open>
  The parameters are a plain object; \<^verbatim>\<open>{ ...params }\<close> copies it. \<^verbatim>\<open>k in obj\<close> is
  \<open>has_key\<close> (neither \<^verbatim>\<open>pagelen\<close> nor \<^verbatim>\<open>state\<close> is inherited).
\<close>

definition has_key :: "(string \<times> js) list \<Rightarrow> string \<Rightarrow> bool" where
  "has_key kvs k = (map_of kvs k \<noteq> None)"

definition transformParams :: "(string \<times> js) list \<Rightarrow> (string \<times> js) list" where
  "transformParams params =
     (let transformed = params;
          transformed =
            (if has_key transformed ''pagelen''
             then AList.delete ''pagelen''
                    (AList.update ''limit'' (lookup transformed ''pagelen'') transformed)
             else transformed)
      in if has_key transformed ''state'' \<and> truthy (lookup transformed ''state'')
            \<and> lookup transformed ''state'' = JStr ''SUPERSEDED''
         then AList.update ''state'' (JStr ''DECLINED'') transformed
         else transformed)"

subsection \<open>transformRequestBody\<close>

text \<open>\<^verbatim>\<open>url.match(/<lit>([^\/]+)/)?.[1]\<close>.\<close>

definition capture1 :: "string \<Rightarrow> string \<Rightarrow> js" where
  "capture1 lit url = (case search_capture lit url of Some s \<Rightarrow> JStr s | None \<Rightarrow> JUndefined)"

definition ref_of :: "string \<Rightarrow> js \<Rightarrow> js \<Rightarrow> js" where
  "ref_of branch repoSlug projectKey =
     JObj [(''id'', JStr (''refs/heads/'' @ branch)),
           (''repository'', JObj [(''slug'', repoSlug),
                                  (''project'', JObj [(''key'', projectKey)])])]"

definition reviewer_wrapper :: "js \<Rightarrow> js option" where
  "reviewer_wrapper username = Some (JObj [(''user'', JObj [(''name'', username)])])"

definition transformRequestBody :: "string \<Rightarrow> js \<Rightarrow> js option" where
  "transformRequestBody url data =
     (if js_includes url ''/pull-requests'' then
        do {
          flatSource \<leftarrow> get data ''sourceBranch'';
          sourceBranch \<leftarrow>
            (if truthy flatSource then Some flatSource
             else map_option (\<lambda>src. opt_get (opt_get src ''branch'') ''name'')
                    (get data ''source''));
          flatTarget \<leftarrow> get data ''targetBranch'';
          targetBranch \<leftarrow>
            (if truthy flatTarget then Some flatTarget
             else map_option
                    (\<lambda>dst. js_or (opt_get (opt_get dst ''branch'') ''name'') (JStr ''master''))
                    (get data ''destination''));
          if truthy sourceBranch then
            do {
              let repoSlug = capture1 ''/repos/'' url;
              let projectKey = capture1 ''/projects/'' url;
              title \<leftarrow> get data ''title'';
              description \<leftarrow> get data ''description'';
              fromBranch \<leftarrow> to_string sourceBranch;
              toBranch \<leftarrow> to_string targetBranch;
              given \<leftarrow> get data ''reviewers'';
              reviewers \<leftarrow> js_opt_map_or_empty reviewer_wrapper given;
              Some (JObj [(''title'', title),
                          (''description'', js_or description (JStr [])),
                          (''state'', JStr ''OPEN''),
                          (''open'', JBool True),
                          (''closed'', JBool False),
                          (''fromRef'', ref_of fromBranch repoSlug projectKey),
                          (''toRef'', ref_of toBranch repoSlug projectKey),
                          (''reviewers'', reviewers)])
            }
          else Some data
        }
      else Some data)"

subsection \<open>The canonical shapes\<close>

text \<open>
  The list and the single-entity normalizers build the workspace, repository and
  pull-request shapes with the same expressions, written out twice in the source
  (once on \<^verbatim>\<open>project\<close>, \<^verbatim>\<open>repo\<close>, \<^verbatim>\<open>pr\<close>, once on \<^verbatim>\<open>data\<close>); each is one function here.
\<close>

definition braces :: "string \<Rightarrow> js" where
  "braces s = JStr (''{'' @ s @ ''}'')"

definition href_of :: "string \<Rightarrow> js" where
  "href_of s = JObj [(''href'', JStr s)]"

definition workspace_of :: "string \<Rightarrow> js \<Rightarrow> js option" where
  "workspace_of baseUrl project =
     do {
       pid \<leftarrow> get project ''id'';
       uuid \<leftarrow> to_string pid;
       name \<leftarrow> get project ''name'';
       key \<leftarrow> get project ''key'';
       slug \<leftarrow> toLowerCase key;
       keystr \<leftarrow> to_string key;
       Some (JObj [(''uuid'', braces uuid),
                   (''name'', name),
                   (''slug'', slug),
                   (''type'', JStr ''workspace''),
                   (''is_private'', JBool True),
                   (''links'', JObj [(''self'', href_of (baseUrl @ ''/projects/'' @ keystr)),
                                     (''html'', href_of (baseUrl @ ''/projects/'' @ keystr))])])
     }"

definition repository_of :: "string \<Rightarrow> js \<Rightarrow> js option" where
  "repository_of baseUrl repo =
     do {
       rid \<leftarrow> get repo ''id'';
       uuid \<leftarrow> to_string rid;
       name \<leftarrow> get repo ''name'';
       slug \<leftarrow> get repo ''slug'';
       project \<leftarrow> get repo ''project'';
       key \<leftarrow> get project ''key'';
       keystr \<leftarrow> to_string key;
       slugstr \<leftarrow> to_string slug;
       description \<leftarrow> get repo ''description'';
       public \<leftarrow> get repo ''public'';
       scmId \<leftarrow> get repo ''scmId'';
       projectId \<leftarrow> get project ''id'';
       puuid \<leftarrow> to_string projectId;
       projectName \<leftarrow> get project ''name'';
       wslug \<leftarrow> toLowerCase key;
       links \<leftarrow> get repo ''links'';
       let href = href_of (baseUrl @ ''/projects/'' @ keystr @ ''/repos/'' @ slugstr);
       Some (JObj [(''uuid'', braces uuid),
                   (''name'', name),
                   (''slug'', slug),
                   (''full_name'', JStr (keystr @ ''/'' @ slugstr)),
                   (''description'', js_or description (JStr [])),
                   (''is_private'', JBool (\<not> truthy public)),
                   (''type'', JStr ''repository''),
                   (''scm'', js_or scmId (JStr ''git'')),
                   (''workspace'', JObj [(''uuid'', braces puuid),
                                         (''name'', projectName),
                                         (''slug'', wslug),
                                         (''type'', JStr ''workspace'')]),
                   (''project'', JObj [(''uuid'', braces puuid),
                                       (''key'', key),
                                       (''name'', projectName),
                                       (''type'', JStr ''project'')]),
                   (''links'', JObj [(''self'', href),
                                     (''html'', href),
                                     (''clone'', js_or (opt_get links ''clone'') (JArr []))])])
     }"

text \<open>A file change. \<^verbatim>\<open>change.path.toString\<close> reads the property; it does not call it.\<close>

definition path_of :: "js \<Rightarrow> js" where
  "path_of p = (if truthy p then JObj [(''path'', opt_get p ''toString'')] else JNull)"

definition change_of :: "js \<Rightarrow> js option" where
  "change_of change =
     do {
       type \<leftarrow> get change ''type'';
       path \<leftarrow> get change ''path'';
       srcPath \<leftarrow> get change ''srcPath'';
       linesAdded \<leftarrow> get change ''linesAdded'';
       linesRemoved \<leftarrow> get change ''linesRemoved'';
       Some (JObj [(''status'', js_or type (JStr ''modified'')),
                   (''new'', path_of path),
                   (''old'', path_of srcPath),
                   (''lines_added'', js_or linesAdded (JNum 0)),
                   (''lines_removed'', js_or linesRemoved (JNum 0))])
     }"

text \<open>The two readings of a pull-request activity: as a comment, and as a log entry.\<close>

definition is_commented :: "js \<Rightarrow> bool option" where
  "is_commented activity = map_option (\<lambda>action. action = JStr ''COMMENTED'') (get activity ''action'')"

definition comment_of :: "js \<Rightarrow> js option" where
  "comment_of activity =
     do {
       comment \<leftarrow> get activity ''comment'';
       user \<leftarrow> get activity ''user'';
       activityId \<leftarrow> get activity ''id'';
       createdDate \<leftarrow> get activity ''createdDate'';
       updatedDate \<leftarrow> get activity ''updatedDate'';
       let author = opt_get comment ''author'';
       uid \<leftarrow> to_string (js_or (opt_get user ''id'') (opt_get author ''id''));
       Some (JObj [(''id'', js_or (opt_get comment ''id'') activityId),
                   (''content'', JObj [(''raw'', js_or (opt_get comment ''text'') (JStr [])),
                                       (''markup'', JStr ''markdown''),
                                       (''html'', js_or (opt_get comment ''text'') (JStr []))]),
                   (''user'', JObj [(''uuid'', braces uid),
                                    (''display_name'',
                                       js_or (opt_get user ''displayName'')
                                         (opt_get author ''displayName'')),
                                    (''account_id'',
                                       js_or (opt_get user ''name'') (opt_get author ''name''))]),
                   (''created_on'', js_or createdDate (opt_get comment ''createdDate'')),
                   (''updated_on'', js_or updatedDate (opt_get comment ''updatedDate'')),
                   (''type'', JStr ''pullrequest_comment''),
                   (''links'', JObj [(''self'', href_of []), (''html'', href_of [])])])
     }"

definition activity_of :: "js \<Rightarrow> js option" where
  "activity_of activity =
     do {
       createdDate \<leftarrow> get activity ''createdDate'';
       user \<leftarrow> get activity ''user'';
       action \<leftarrow> get activity ''action'';
       comment \<leftarrow> get activity ''comment'';
       uid \<leftarrow> to_string (opt_get user ''id'');
       let person = JObj [(''uuid'', braces uid),
                          (''display_name'', opt_get user ''displayName''),
                          (''account_id'', opt_get user ''name'')];
       let baseActivity = [(''update'', JObj [(''date'', createdDate), (''author'', person)])];
       if action = JStr ''COMMENTED'' then
         do {
           let author = opt_get comment ''author'';
           cuid \<leftarrow> to_string (opt_get author ''id'');
           Some (JObj (baseActivity @
             [(''comment'',
               JObj [(''id'', opt_get comment ''id''),
                     (''created_on'', opt_get comment ''createdDate''),
                     (''updated_on'', opt_get comment ''updatedDate''),
                     (''content'', JObj [(''raw'', js_or (opt_get comment ''text'') (JStr [])),
                                         (''markup'', JStr ''markdown''),
                                         (''html'', js_or (opt_get comment ''text'') (JStr []))]),
                     (''user'', JObj [(''uuid'', braces cuid),
                                      (''display_name'', opt_get author ''displayName''),
                                      (''account_id'', opt_get author ''name'')])])]))
         }
       else if action = JStr ''APPROVED'' \<or> action = JStr ''UNAPPROVED'' then
         Some (JObj (baseActivity @
           [(''approval'', JObj [(''date'', createdDate), (''user'', person)])]))
       else Some (JObj baseActivity)
     }"

text \<open>A pull request and its reviewers.\<close>

definition reviewer_of :: "js \<Rightarrow> js option" where
  "reviewer_of r =
     do {
       user \<leftarrow> get r ''user'';
       userId \<leftarrow> get user ''id'';
       uid \<leftarrow> to_string userId;
       displayName \<leftarrow> get user ''displayName'';
       name \<leftarrow> get user ''name'';
       approved \<leftarrow> get r ''approved'';
       Some (JObj [(''uuid'', braces uid),
                   (''display_name'', displayName),
                   (''account_id'', name),
                   (''approved'', approved)])
     }"

definition side_of :: "js \<Rightarrow> js option" where
  "side_of ref =
     do {
       displayId \<leftarrow> get ref ''displayId'';
       repository \<leftarrow> get ref ''repository'';
       project \<leftarrow> get repository ''project'';
       key \<leftarrow> get project ''key'';
       keystr \<leftarrow> to_string key;
       slug \<leftarrow> get repository ''slug'';
       slugstr \<leftarrow> to_string slug;
       Some (JObj [(''branch'', JObj [(''name'', displayId)]),
                   (''repository'', JObj [(''full_name'', JStr (keystr @ ''/'' @ slugstr))])])
     }"

definition pullrequest_of :: "js \<Rightarrow> js option" where
  "pullrequest_of pr =
     do {
       prId \<leftarrow> get pr ''id'';
       title \<leftarrow> get pr ''title'';
       description \<leftarrow> get pr ''description'';
       state \<leftarrow> get pr ''state'';
       createdDate \<leftarrow> get pr ''createdDate'';
       updatedDate \<leftarrow> get pr ''updatedDate'';
       fromRef \<leftarrow> get pr ''fromRef'';
       source \<leftarrow> side_of fromRef;
       toRef \<leftarrow> get pr ''toRef'';
       destination \<leftarrow> side_of toRef;
       prAuthor \<leftarrow> get pr ''author'';
       let authorUser = opt_get prAuthor ''user'';
       author \<leftarrow>
         (if truthy authorUser then
            do {
              uid \<leftarrow> to_string (opt_get authorUser ''id'');
              Some (JObj [(''uuid'', braces uid),
                          (''display_name'', opt_get authorUser ''displayName''),
                          (''account_id'', opt_get authorUser ''name'')])
            }
          else Some JNull);
       given \<leftarrow> get pr ''reviewers'';
       reviewers \<leftarrow> js_opt_map_or_empty reviewer_of given;
       links \<leftarrow> get pr ''links'';
       let href = js_or (opt_get (index0 (opt_get links ''self'')) ''href'') (JStr []);
       Some (JObj [(''id'', prId),
                   (''title'', title),
                   (''description'', js_or description (JStr [])),
                   (''state'', state),
                   (''created_on'', createdDate),
                   (''updated_on'', updatedDate),
                   (''source'', source),
                   (''destination'', destination),
                   (''author'', author),
                   (''reviewers'', reviewers),
                   (''links'', JObj [(''self'', JObj [(''href'', href)]),
                                     (''html'', JObj [(''href'', href)])])])
     }"

subsection \<open>transformPaginatedResponse\<close>

text \<open>\<^verbatim>\<open>data.values = data.values.map(f)\<close>.\<close>

definition map_values :: "(js \<Rightarrow> js option) \<Rightarrow> js \<Rightarrow> js option" where
  "map_values f data =
     do {
       values \<leftarrow> get data ''values'';
       mapped \<leftarrow> js_map f values;
       set_prop data ''values'' mapped
     }"

definition js_length :: "js \<Rightarrow> nat" where
  "js_length x = (case x of JArr xs \<Rightarrow> length xs | _ \<Rightarrow> 0)"

definition activities_block :: "js \<Rightarrow> js option" where
  "activities_block data =
     do {
       values \<leftarrow> get data ''values'';
       let activities = js_or values (JArr []);
       commented \<leftarrow> js_filter is_commented activities;
       comments \<leftarrow> js_map comment_of commented;
       allActivities \<leftarrow> js_map activity_of activities;
       set_prop data ''values'' (if js_length comments > 0 then comments else allActivities)
     }"

text \<open>The five blocks run one after the other, each on the payload the previous one left.\<close>

definition transformPaginatedResponse :: "string \<Rightarrow> string \<Rightarrow> js \<Rightarrow> js option" where
  "transformPaginatedResponse baseUrl url data0 =
     do {
       data1 \<leftarrow>
         (if js_includes url ''/projects'' \<and> \<not> js_includes url ''/repos''
          then map_values (workspace_of baseUrl) data0 else Some data0);
       data2 \<leftarrow>
         (if js_includes url ''/repos'' \<and> \<not> js_includes url ''/pull-requests''
          then map_values (repository_of baseUrl) data1 else Some data1);
       data3 \<leftarrow>
         (if js_includes url ''/pull-requests/'' \<and> js_includes url ''/changes''
          then map_values change_of data2 else Some data2);
       data4 \<leftarrow>
         (if js_includes url ''/pull-requests/'' \<and> js_includes url ''/activities''
          then activities_block data3 else Some data3);
       (if js_includes url ''/pull-requests'' \<and> \<not> js_includes url ''/changes''
           \<and> \<not> js_includes url ''/activities''
        then map_values pullrequest_of data4 else Some data4)
     }"

subsection \<open>transformSingleResponse and transformResponse\<close>

text \<open>
  \<^verbatim>\<open>test && data.k\<close> as a condition: the property is read only when the test on the URL
  holds, and reading it throws on \<^verbatim>\<open>null\<close> and \<^verbatim>\<open>undefined\<close>.
\<close>

definition and_field :: "bool \<Rightarrow> js \<Rightarrow> string \<Rightarrow> bool option" where
  "and_field test data k = (if test then map_option truthy (get data k) else Some False)"

definition transformSingleResponse :: "string \<Rightarrow> string \<Rightarrow> js \<Rightarrow> js option" where
  "transformSingleResponse baseUrl url data =
     do {
       isProject \<leftarrow> and_field (ends_with_segment ''/projects/'' url) data ''key'';
       if isProject then workspace_of baseUrl data
       else do {
         hasSlug \<leftarrow> and_field (js_includes url ''/repos/'') data ''slug'';
         if hasSlug \<and> \<not> js_includes url ''/pull-requests'' then repository_of baseUrl data
         else do {
           hasId \<leftarrow> and_field (js_includes url ''/pull-requests/'') data ''id'';
           if hasId then pullrequest_of data else Some data
         }
       }
     }"

text \<open>The response hook, on the request URL and the payload (an absent URL is the empty string).\<close>

definition transformResponse :: "string \<Rightarrow> string \<Rightarrow> js \<Rightarrow> js option" where
  "transformResponse baseUrl url data =
     (if url = [] then Some data
      else if truthy data \<and> truthy (opt_get data ''values'')
      then transformPaginatedResponse baseUrl url data
      else if truthy data then transformSingleResponse baseUrl url data
      else Some data)"

subsection \<open>transformError\<close>

text \<open>
  How the promise returned to the transport settles. \<open>Rejected e\<close> is
  \<^verbatim>\<open>Promise.reject(e)\<close>; \<open>Thrown\<close> is a \<^verbatim>\<open>TypeError\<close> raised inside the hook, which the
  promise chain delivers as a rejection whose reason is that \<^verbatim>\<open>TypeError\<close>, not the error the
  hook received.
\<close>

datatype settled = Fulfilled js | Rejected js | Thrown

definition error_body :: "js \<Rightarrow> js option" where
  "error_body serverError =
     do {
       message \<leftarrow> get serverError ''message'';
       exceptionName \<leftarrow> get serverError ''exceptionName'';
       context \<leftarrow> get serverError ''context'';
       Some (JObj [(''type'', JStr ''error''),
                   (''error'', JObj [(''message'', js_or message exceptionName),
                                     (''detail'', js_or context message)])])
     }"

text \<open>The error object after the hook's assignment to \<^verbatim>\<open>error.response.data\<close>.\<close>

definition reshape_error :: "js \<Rightarrow> js option" where
  "reshape_error error =
     do {
       response \<leftarrow> get error ''response'';
       if truthy response \<and> truthy (opt_get response ''data'') then
         (let errors = opt_get (opt_get response ''data'') ''errors'' in
          if truthy errors then
            do {
              body \<leftarrow> error_body (index0 errors);
              response' \<leftarrow> set_prop response ''data'' body;
              set_prop error ''response'' response'
            }
          else Some error)
       else Some error
     }"

definition transformError :: "js \<Rightarrow> settled" where
  "transformError error = (case reshape_error error of Some e \<Rightarrow> Rejected e | None \<Rightarrow> Thrown)"

subsection \<open>transformRequest\<close>

text \<open>
  The request hook, on the fields of the request configuration it reads and writes. An
  absent URL is the empty string, absent parameters are \<open>None\<close>, an absent body is
  \<^verbatim>\<open>undefined\<close>. The hook also records the canonical path and writes a log entry; the log is
  not modelled.
\<close>

record request =
  req_url :: string
  req_method :: string
  req_params :: "(string \<times> js) list option"
  req_data :: js
  req_originalPath :: "string option"

definition transformRequest :: "request \<Rightarrow> request option" where
  "transformRequest config =
     (if req_url config = [] then Some config
      else
        (let config1 = config\<lparr>req_originalPath := Some (req_url config)\<rparr>;
             config2 = config1\<lparr>req_url := transformUrl (req_url config1)\<rparr>;
             config3 = (case req_params config2 of
                          Some ps \<Rightarrow> config2\<lparr>req_params := Some (transformParams ps)\<rparr>
                        | None \<Rightarrow> config2)
         in if truthy (req_data config3)
               \<and> (req_method config3 = ''post'' \<or> req_method config3 = ''put'')
            then map_option (\<lambda>body. config3\<lparr>req_data := body\<rparr>)
                   (transformRequestBody (req_url config3) (req_data config3))
            else Some config3))"

subsection \<open>Canonical paths with ordinary segments\<close>

text \<open>
  Two notions used to state properties of the rewriter, not part of the adapter. A plain
  segment is a path segment (non-empty, without a slash) that does not begin with one of the
  words the rewrite rules search for. \<open>path_of_segments\<close> joins segments into a path tail,
  each preceded by a slash.
\<close>

definition plain_segment :: "string \<Rightarrow> bool" where
  "plain_segment s =
     (s \<noteq> [] \<and> CHR ''/'' \<notin> set s
      \<and> \<not> prefix ''pullrequests'' s \<and> \<not> prefix ''diff'' s \<and> \<not> prefix ''comments'' s
      \<and> \<not> prefix ''activity'' s \<and> \<not> prefix ''branching-model'' s)"

fun path_of_segments :: "string list \<Rightarrow> string" where
  "path_of_segments [] = []"
| "path_of_segments (s # ss) = CHR ''/'' # s @ path_of_segments ss"

section \<open>Properties\<close>

subsection \<open>The anchored patterns\<close>

lemma after_segment_Nil_iff: "after_segment s = [] \<longleftrightarrow> CHR ''/'' \<notin> set s"
  by (auto simp: after_segment_def not_slash_def dropWhile_eq_Nil_conv)

lemma segment_no_slash: "CHR ''/'' \<notin> set s \<Longrightarrow> segment s = s"
  by (auto simp: segment_def not_slash_def takeWhile_eq_all_conv)

lemma segment_slash: "CHR ''/'' \<notin> set s \<Longrightarrow> segment (s @ CHR ''/'' # t) = s"
  unfolding segment_def not_slash_def by (subst takeWhile_append2) auto

lemma after_segment_slash: "CHR ''/'' \<notin> set s \<Longrightarrow> after_segment (s @ CHR ''/'' # t) = CHR ''/'' # t"
  unfolding after_segment_def not_slash_def by (subst dropWhile_append2) auto

lemma segment_after_segment: "segment s @ after_segment s = s"
  by (simp add: segment_def after_segment_def)

lemma after_segment_Cons: "after_segment s = c # t \<Longrightarrow> c = CHR ''/''"
  unfolding after_segment_def not_slash_def
  using hd_dropWhile[of "\<lambda>c. c \<noteq> CHR ''/''" s] by fastforce

lemma segment_clean: "CHR ''/'' \<notin> set (segment s)"
  unfolding segment_def not_slash_def
  by (metis (mono_tags, lifting) set_takeWhileD)

lemma match_one_segment_iff:
  "match_one_segment lit url = Some ws \<longleftrightarrow> url = lit @ ws \<and> ws \<noteq> [] \<and> CHR ''/'' \<notin> set ws"
  by (auto simp: match_one_segment_def Let_def after_segment_Nil_iff prefix_def)

lemma match_repo_prefix_iff:
  "match_repo_prefix url = Some (ws, repo, rest) \<longleftrightarrow>
     url = ''/repositories/'' @ ws @ ''/'' @ repo @ rest \<and> ws \<noteq> [] \<and> CHR ''/'' \<notin> set ws
       \<and> repo \<noteq> [] \<and> CHR ''/'' \<notin> set repo \<and> (rest = [] \<or> hd rest = CHR ''/'')"
proof
  assume m: "match_repo_prefix url = Some (ws, repo, rest)"
  then obtain r where u: "url = ''/repositories/'' @ r"
    by (auto simp: match_repo_prefix_def prefix_def split: if_splits)
  from m u obtain c r2 where a: "after_segment r = c # r2"
    and ws: "ws = segment r" "ws \<noteq> []" and repo: "repo = segment r2" "repo \<noteq> []"
    and rest: "rest = after_segment r2"
    by (auto simp: match_repo_prefix_def Let_def split: list.splits if_splits)
  have c: "c = CHR ''/''" using a by (rule after_segment_Cons)
  have r: "r = ws @ CHR ''/'' # r2" using segment_after_segment[of r] a c ws(1) by simp
  have r2: "r2 = repo @ rest" using segment_after_segment[of r2] repo(1) rest by simp
  have tl: "rest = [] \<or> hd rest = CHR ''/''"
  proof (cases rest)
    case (Cons d t)
    then have "after_segment r2 = d # t" using rest by simp
    then have "d = CHR ''/''" by (rule after_segment_Cons)
    then show ?thesis using Cons by simp
  qed simp
  have cw: "CHR ''/'' \<notin> set ws" unfolding ws(1) by (rule segment_clean)
  have cr: "CHR ''/'' \<notin> set repo" unfolding repo(1) by (rule segment_clean)
  have "url = ''/repositories/'' @ ws @ ''/'' @ repo @ rest"
    by (simp only: u) (simp add: r r2[symmetric])
  with ws(2) repo(2) cw cr tl
  show "url = ''/repositories/'' @ ws @ ''/'' @ repo @ rest \<and> ws \<noteq> [] \<and> CHR ''/'' \<notin> set ws
       \<and> repo \<noteq> [] \<and> CHR ''/'' \<notin> set repo \<and> (rest = [] \<or> hd rest = CHR ''/'')"
    by blast
next
  assume h: "url = ''/repositories/'' @ ws @ ''/'' @ repo @ rest \<and> ws \<noteq> [] \<and> CHR ''/'' \<notin> set ws
       \<and> repo \<noteq> [] \<and> CHR ''/'' \<notin> set repo \<and> (rest = [] \<or> hd rest = CHR ''/'')"
  then have 1: "segment (ws @ CHR ''/'' # repo @ rest) = ws"
    and 2: "after_segment (ws @ CHR ''/'' # repo @ rest) = CHR ''/'' # repo @ rest"
    by (simp_all add: segment_slash after_segment_slash)
  have 3: "segment (repo @ rest) = repo \<and> after_segment (repo @ rest) = rest"
  proof (cases rest)
    case Nil
    then show ?thesis using h by (simp add: segment_no_slash after_segment_Nil_iff)
  next
    case (Cons c t)
    then have "rest = CHR ''/'' # t" using h by auto
    then show ?thesis using h by (simp add: segment_slash after_segment_slash)
  qed
  show "match_repo_prefix url = Some (ws, repo, rest)"
    using h 1 2 3 by (simp add: match_repo_prefix_def)
qed

lemma match_single_repo_iff:
  "match_single_repo url = Some (ws, repo) \<longleftrightarrow>
     url = ''/repositories/'' @ ws @ ''/'' @ repo \<and> ws \<noteq> [] \<and> CHR ''/'' \<notin> set ws
       \<and> repo \<noteq> [] \<and> CHR ''/'' \<notin> set repo"
proof -
  have "match_single_repo url = Some (ws, repo) \<longleftrightarrow> match_repo_prefix url = Some (ws, repo, [])"
    by (auto simp: match_single_repo_def split: option.splits if_splits)
  then show ?thesis by (simp add: match_repo_prefix_iff)
qed

lemma transformUrl_repo_list:
  assumes "ws \<noteq> []" "CHR ''/'' \<notin> set ws"
  shows "transformUrl (''/repositories/'' @ ws) = ''/rest/api/1.0/projects/'' @ ws @ ''/repos''"
proof -
  have "match_one_segment ''/repositories/'' (''/repositories/'' @ ws) = Some ws"
    using assms by (simp only: match_one_segment_iff) simp
  then show ?thesis by (simp only: transformUrl_def option.case)
qed

lemma transformUrl_single_repo:
  assumes "ws \<noteq> []" "CHR ''/'' \<notin> set ws" "repo \<noteq> []" "CHR ''/'' \<notin> set repo"
  shows "transformUrl (''/repositories/'' @ ws @ ''/'' @ repo)
           = ''/rest/api/1.0/projects/'' @ ws @ ''/repos/'' @ repo"
proof -
  have "match_one_segment ''/repositories/'' (''/repositories/'' @ ws @ ''/'' @ repo) = None"
  proof (cases "match_one_segment ''/repositories/'' (''/repositories/'' @ ws @ ''/'' @ repo)")
    case (Some a)
    then have "''/repositories/'' @ ws @ ''/'' @ repo = ''/repositories/'' @ a \<and> CHR ''/'' \<notin> set a"
      unfolding match_one_segment_iff by blast
    then have "a = ws @ ''/'' @ repo \<and> CHR ''/'' \<notin> set a" by simp
    then have False by auto
    then show ?thesis ..
  qed simp
  moreover have "match_single_repo (''/repositories/'' @ ws @ ''/'' @ repo) = Some (ws, repo)"
    using assms by (simp only: match_single_repo_iff) simp
  ultimately show ?thesis by (simp only: transformUrl_def option.case prod.case)
qed

text \<open>
  C7. The rewriter maps \<^verbatim>\<open>/repositories/ws1\<close> to \<^verbatim>\<open>/rest/api/1.0/projects/ws1/repos\<close> and
  \<^verbatim>\<open>/repositories/ws1/repo1\<close> to \<^verbatim>\<open>/rest/api/1.0/projects/ws1/repos/repo1\<close>, and does the
  same for every workspace and repository segment. The two patterns are anchored at both
  ends: the first matches exactly the paths with one non-empty slash-free segment after
  \<^verbatim>\<open>/repositories/\<close>, the second exactly those with two, so neither captures a deeper path.
\<close>

theorem repository_rules_anchored:
  "transformUrl ''/repositories/ws1'' = ''/rest/api/1.0/projects/ws1/repos''
   \<and> transformUrl ''/repositories/ws1/repo1'' = ''/rest/api/1.0/projects/ws1/repos/repo1''
   \<and> (ws \<noteq> [] \<and> CHR ''/'' \<notin> set ws \<longrightarrow>
        transformUrl (''/repositories/'' @ ws) = ''/rest/api/1.0/projects/'' @ ws @ ''/repos'')
   \<and> (ws \<noteq> [] \<and> CHR ''/'' \<notin> set ws \<and> repo \<noteq> [] \<and> CHR ''/'' \<notin> set repo \<longrightarrow>
        transformUrl (''/repositories/'' @ ws @ ''/'' @ repo)
          = ''/rest/api/1.0/projects/'' @ ws @ ''/repos/'' @ repo)
   \<and> (match_one_segment ''/repositories/'' url = Some ws \<longleftrightarrow>
        url = ''/repositories/'' @ ws \<and> ws \<noteq> [] \<and> CHR ''/'' \<notin> set ws)
   \<and> (match_single_repo url = Some (ws, repo) \<longleftrightarrow>
        url = ''/repositories/'' @ ws @ ''/'' @ repo \<and> ws \<noteq> [] \<and> CHR ''/'' \<notin> set ws
          \<and> repo \<noteq> [] \<and> CHR ''/'' \<notin> set repo)"
proof -
  have a: "transformUrl ''/repositories/ws1'' = ''/rest/api/1.0/projects/ws1/repos''"
    using transformUrl_repo_list[of "''ws1''"] by simp
  have b: "transformUrl ''/repositories/ws1/repo1'' = ''/rest/api/1.0/projects/ws1/repos/repo1''"
    using transformUrl_single_repo[of "''ws1''" "''repo1''"] by simp
  show ?thesis
    using a b transformUrl_repo_list[of ws] transformUrl_single_repo[of ws repo]
      match_one_segment_iff[of "''/repositories/''" url ws] match_single_repo_iff[of url ws repo]
    by blast
qed

theorem repository_rules_anchored_witness:
  "transformUrl ''/repositories/team-a'' = ''/rest/api/1.0/projects/team-a/repos''
   \<and> transformUrl ''/repositories/team-a/web'' = ''/rest/api/1.0/projects/team-a/repos/web''
   \<and> match_one_segment ''/repositories/'' ''/repositories/team-a'' = Some ''team-a''
   \<and> match_single_repo ''/repositories/team-a/web'' = Some (''team-a'', ''web'')
   \<and> match_one_segment ''/repositories/'' ''/repositories/team-a/web'' \<noteq> Some ''team-a''
   \<and> match_single_repo ''/repositories/team-a/web/src'' \<noteq> Some (''team-a'', ''web'')"
  using repository_rules_anchored[of "''team-a''" "''web''" "''/repositories/team-a''"]
    repository_rules_anchored[of "''team-a''" "''web''" "''/repositories/team-a/web''"]
    repository_rules_anchored[of "''team-a''" "''web''" "''/repositories/team-a/web/src''"]
  by simp

subsection \<open>Substring tests\<close>

lemma ends_with_segment_iff:
  "ends_with_segment lit s \<longleftrightarrow>
     (\<exists>pre key. s = pre @ lit @ key \<and> key \<noteq> [] \<and> CHR ''/'' \<notin> set key)"
proof (induction s)
  case Nil
  then show ?case by simp
next
  case (Cons c cs)
  have "(\<exists>pre key. c # cs = pre @ lit @ key \<and> key \<noteq> [] \<and> CHR ''/'' \<notin> set key) \<longleftrightarrow>
        (\<exists>key. c # cs = lit @ key \<and> key \<noteq> [] \<and> CHR ''/'' \<notin> set key)
        \<or> (\<exists>pre key. cs = pre @ lit @ key \<and> key \<noteq> [] \<and> CHR ''/'' \<notin> set key)"
    (is "?L \<longleftrightarrow> ?A \<or> ?B")
  proof
    assume ?L
    then obtain pre key where h: "c # cs = pre @ lit @ key" "key \<noteq> []" "CHR ''/'' \<notin> set key"
      by blast
    show "?A \<or> ?B"
    proof (cases pre)
      case Nil
      then show ?thesis using h by auto
    next
      case (Cons d pre')
      then have "cs = pre' @ lit @ key" using h by simp
      then show ?thesis using h by blast
    qed
  next
    assume "?A \<or> ?B"
    then show ?L
    proof
      assume ?A
      then obtain key where "c # cs = [] @ lit @ key" "key \<noteq> []" "CHR ''/'' \<notin> set key" by auto
      then show ?L by blast
    next
      assume ?B
      then obtain pre key where "cs = pre @ lit @ key" "key \<noteq> []" "CHR ''/'' \<notin> set key" by blast
      then have "c # cs = (c # pre) @ lit @ key" by simp
      then show ?L using \<open>key \<noteq> []\<close> \<open>CHR ''/'' \<notin> set key\<close> by blast
    qed
  qed
  moreover have "match_one_segment lit (c # cs) \<noteq> None \<longleftrightarrow>
     (\<exists>key. c # cs = lit @ key \<and> key \<noteq> [] \<and> CHR ''/'' \<notin> set key)"
    using match_one_segment_iff[of lit "c # cs"] by auto
  ultimately show ?case using Cons.IH by simp
qed

lemma js_includes_iff: "js_includes s sub \<longleftrightarrow> (\<exists>a b. s = a @ sub @ b)"
proof (induction s)
  case Nil
  then show ?case by auto
next
  case (Cons c cs)
  have "(\<exists>a b. c # cs = a @ sub @ b) \<longleftrightarrow> prefix sub (c # cs) \<or> (\<exists>a b. cs = a @ sub @ b)"
    (is "?L \<longleftrightarrow> ?A \<or> ?B")
  proof
    assume ?L
    then obtain a b where h: "c # cs = a @ sub @ b" by blast
    show "?A \<or> ?B"
    proof (cases a)
      case Nil
      then show ?thesis using h by (auto simp: prefix_def)
    next
      case (Cons d a')
      then have "cs = a' @ sub @ b" using h by simp
      then show ?thesis by blast
    qed
  next
    assume "?A \<or> ?B"
    then show ?L
    proof
      assume ?A
      then obtain b where "c # cs = [] @ sub @ b" by (auto simp: prefix_def)
      then show ?L by blast
    next
      assume ?B
      then obtain a b where "cs = a @ sub @ b" by blast
      then have "c # cs = (c # a) @ sub @ b" by simp
      then show ?L by blast
    qed
  qed
  then show ?case using Cons.IH by simp
qed

lemma js_includes_longer: "js_includes s (p @ q) \<Longrightarrow> js_includes s p"
proof -
  assume "js_includes s (p @ q)"
  then obtain a b where "s = a @ (p @ q) @ b" unfolding js_includes_iff by blast
  then have "s = a @ p @ (q @ b)" by simp
  then show ?thesis unfolding js_includes_iff by blast
qed

subsection \<open>Query parameters\<close>

text \<open>
  C6. The parameter transform turns \<^verbatim>\<open>{ pagelen: 25 }\<close> into \<^verbatim>\<open>{ limit: 25 }\<close> and
  \<^verbatim>\<open>{ state: "SUPERSEDED" }\<close> into \<^verbatim>\<open>{ state: "DECLINED" }\<close>. For every parameter object: a
  \<^verbatim>\<open>pagelen\<close> key is removed and its value stored under \<^verbatim>\<open>limit\<close>; without \<^verbatim>\<open>pagelen\<close> the
  \<^verbatim>\<open>limit\<close> entry is untouched; a \<^verbatim>\<open>state\<close> of \<^verbatim>\<open>SUPERSEDED\<close> becomes \<^verbatim>\<open>DECLINED\<close>; every other
  \<^verbatim>\<open>state\<close> value, and every other key, is left as it was.
\<close>

theorem transformParams_renames_and_narrows:
  "transformParams [(''pagelen'', JNum 25)] = [(''limit'', JNum 25)]
   \<and> transformParams [(''state'', JStr ''SUPERSEDED'')] = [(''state'', JStr ''DECLINED'')]
   \<and> (has_key params ''pagelen'' \<longrightarrow>
        map_of (transformParams params) ''limit'' = map_of params ''pagelen''
        \<and> map_of (transformParams params) ''pagelen'' = None)
   \<and> (\<not> has_key params ''pagelen'' \<longrightarrow>
        map_of (transformParams params) ''limit'' = map_of params ''limit'')
   \<and> (map_of params ''state'' = Some (JStr ''SUPERSEDED'') \<longrightarrow>
        map_of (transformParams params) ''state'' = Some (JStr ''DECLINED''))
   \<and> (map_of params ''state'' \<noteq> Some (JStr ''SUPERSEDED'') \<longrightarrow>
        map_of (transformParams params) ''state'' = map_of params ''state'')
   \<and> (k \<noteq> ''pagelen'' \<and> k \<noteq> ''limit'' \<and> k \<noteq> ''state'' \<longrightarrow>
        map_of (transformParams params) k = map_of params k)"
proof -
  have 1: "transformParams [(''pagelen'', JNum 25)] = [(''limit'', JNum 25)]"
    by (simp add: transformParams_def has_key_def lookup_def)
  have 2: "transformParams [(''state'', JStr ''SUPERSEDED'')] = [(''state'', JStr ''DECLINED'')]"
    by (simp add: transformParams_def has_key_def lookup_def)
  have 3: "has_key params ''pagelen'' \<longrightarrow>
        map_of (transformParams params) ''limit'' = map_of params ''pagelen''
        \<and> map_of (transformParams params) ''pagelen'' = None"
    by (auto simp: transformParams_def has_key_def lookup_def Let_def update_conv' delete_conv')
  have 4: "\<not> has_key params ''pagelen'' \<longrightarrow>
        map_of (transformParams params) ''limit'' = map_of params ''limit''"
    by (auto simp: transformParams_def has_key_def lookup_def Let_def update_conv' delete_conv')
  have 5: "map_of params ''state'' = Some (JStr ''SUPERSEDED'') \<longrightarrow>
        map_of (transformParams params) ''state'' = Some (JStr ''DECLINED'')"
    by (auto simp: transformParams_def has_key_def lookup_def Let_def update_conv' delete_conv')
  have 6: "map_of params ''state'' \<noteq> Some (JStr ''SUPERSEDED'') \<longrightarrow>
        map_of (transformParams params) ''state'' = map_of params ''state''"
    by (auto simp: transformParams_def has_key_def lookup_def Let_def update_conv' delete_conv'
        split: option.splits)
  have 7: "k \<noteq> ''pagelen'' \<and> k \<noteq> ''limit'' \<and> k \<noteq> ''state'' \<longrightarrow>
        map_of (transformParams params) k = map_of params k"
    by (auto simp: transformParams_def has_key_def lookup_def Let_def update_conv' delete_conv')
  from 1 2 3 4 5 6 7 show ?thesis by blast
qed

theorem transformParams_renames_and_narrows_witness:
  "map_of (transformParams [(''pagelen'', JNum 50), (''state'', JStr ''OPEN''), (''q'', JStr ''x'')])
      ''limit'' = Some (JNum 50)
   \<and> map_of (transformParams [(''pagelen'', JNum 50), (''state'', JStr ''OPEN''), (''q'', JStr ''x'')])
      ''pagelen'' = None
   \<and> map_of (transformParams [(''pagelen'', JNum 50), (''state'', JStr ''OPEN''), (''q'', JStr ''x'')])
      ''state'' = Some (JStr ''OPEN'')
   \<and> map_of (transformParams [(''pagelen'', JNum 50), (''state'', JStr ''OPEN''), (''q'', JStr ''x'')])
      ''q'' = Some (JStr ''x'')
   \<and> map_of (transformParams [(''state'', JStr ''SUPERSEDED'')]) ''state'' = Some (JStr ''DECLINED'')
   \<and> map_of (transformParams [(''state'', JStr ''SUPERSEDED'')]) ''limit'' = None"
  using transformParams_renames_and_narrows
          [of "[(''pagelen'', JNum 50), (''state'', JStr ''OPEN''), (''q'', JStr ''x'')]" "''q''"]
        transformParams_renames_and_narrows [of "[(''state'', JStr ''SUPERSEDED'')]" "''q''"]
  by (simp add: has_key_def)

subsection \<open>Single entities\<close>

text \<open>
  A payload that matches none of the three rules (the path ends in \<^verbatim>\<open>/projects/{key}\<close> and
  the payload has a truthy \<^verbatim>\<open>key\<close>; the path contains \<^verbatim>\<open>/repos/\<close> but not \<^verbatim>\<open>/pull-requests\<close>
  and the payload has a truthy \<^verbatim>\<open>slug\<close>; the path contains \<^verbatim>\<open>/pull-requests/\<close> and the payload
  has a truthy \<^verbatim>\<open>id\<close>) is returned unchanged, without an error: by \<open>transformSingleResponse\<close>
  on every payload other than \<^verbatim>\<open>null\<close> and \<^verbatim>\<open>undefined\<close>, and by the response hook
  \<open>transformResponse\<close> on every payload whose \<^verbatim>\<open>values\<close> property is not truthy.
\<close>

lemma unrecognized_single_unchanged:
  assumes "\<not> (ends_with_segment ''/projects/'' url \<and> truthy (opt_get data ''key''))"
    and "\<not> (js_includes url ''/repos/'' \<and> truthy (opt_get data ''slug'')
             \<and> \<not> js_includes url ''/pull-requests'')"
    and "\<not> (js_includes url ''/pull-requests/'' \<and> truthy (opt_get data ''id''))"
  shows "(\<not> nullish data \<longrightarrow> transformSingleResponse baseUrl url data = Some data)
       \<and> (\<not> truthy (opt_get data ''values'') \<longrightarrow> transformResponse baseUrl url data = Some data)"
proof -
  have single: "transformSingleResponse baseUrl url data = Some data" if "\<not> nullish data"
    using assms that by (auto simp: transformSingleResponse_def and_field_def get_def)
  have "transformResponse baseUrl url data = Some data" if "\<not> truthy (opt_get data ''values'')"
  proof (cases "truthy data")
    case True
    then have "\<not> nullish data" by (cases data) auto
    then show ?thesis using that True single by (simp add: transformResponse_def)
  next
    case False
    then show ?thesis by (simp add: transformResponse_def)
  qed
  with single show ?thesis by blast
qed

lemma unrecognized_single_unchanged_example:
  "transformSingleResponse ''https://git.example.com''
      ''/rest/api/1.0/projects/P/repos/r/pull-requests/5/diff'' (JStr ''diff --git a/x b/x'')
     = Some (JStr ''diff --git a/x b/x'')
   \<and> transformResponse ''https://git.example.com''
      ''/rest/api/1.0/projects/P/repos/r/pull-requests/5/diff'' (JStr ''diff --git a/x b/x'')
     = Some (JStr ''diff --git a/x b/x'')"
proof -
  have 1: "\<not> (ends_with_segment ''/projects/''
              ''/rest/api/1.0/projects/P/repos/r/pull-requests/5/diff''
            \<and> truthy (opt_get (JStr ''diff --git a/x b/x'') ''key''))"
    by simp
  have 2: "\<not> (js_includes ''/rest/api/1.0/projects/P/repos/r/pull-requests/5/diff'' ''/repos/''
            \<and> truthy (opt_get (JStr ''diff --git a/x b/x'') ''slug'')
            \<and> \<not> js_includes ''/rest/api/1.0/projects/P/repos/r/pull-requests/5/diff''
                  ''/pull-requests'')"
    by simp
  have 3: "\<not> (js_includes ''/rest/api/1.0/projects/P/repos/r/pull-requests/5/diff''
              ''/pull-requests/''
            \<and> truthy (opt_get (JStr ''diff --git a/x b/x'') ''id''))"
    by simp
  show ?thesis
    using unrecognized_single_unchanged [OF 1 2 3, of "''https://git.example.com''"] by simp
qed

text \<open>
  C9. A single-entity (non-paginated) response that matches none of the three rules is to be
  returned unchanged, never altered or turned into an error. The response hook does not do
  so for every such payload: it takes a payload for paginated when its \<^verbatim>\<open>values\<close> property is
  truthy, and a JSON array, which has no \<^verbatim>\<open>values\<close> field, inherits the array method of that
  name. For the array \<^verbatim>\<open>[{ id: 1 }]\<close> answered to \<^verbatim>\<open>/workspaces\<close>, which no rule matches
  and which \<open>transformSingleResponse\<close> would return unchanged, the hook therefore runs the
  workspace-list block, where \<^verbatim>\<open>data.values.map\<close> is not a function, and throws a
  \<^verbatim>\<open>TypeError\<close>.
\<close>

theorem array_payload_taken_for_paginated:
  "transformUrl ''/workspaces'' = ''/rest/api/1.0/projects''
   \<and> opt_get (JArr [JObj [(''id'', JNum 1)]]) ''values'' = JFun ''values''
   \<and> transformSingleResponse ''https://git.example.com'' ''/rest/api/1.0/projects''
       (JArr [JObj [(''id'', JNum 1)]])
     = Some (JArr [JObj [(''id'', JNum 1)]])
   \<and> transformResponse ''https://git.example.com'' ''/rest/api/1.0/projects''
       (JArr [JObj [(''id'', JNum 1)]])
     = None"
proof -
  have url: "transformUrl ''/workspaces'' = ''/rest/api/1.0/projects''"
    by (simp add: transformUrl_def match_one_segment_def match_single_repo_def
          match_repo_prefix_def)
  have single: "transformSingleResponse ''https://git.example.com'' ''/rest/api/1.0/projects''
       (JArr [JObj [(''id'', JNum 1)]])
     = Some (JArr [JObj [(''id'', JNum 1)]])"
    by (simp add: transformSingleResponse_def and_field_def match_one_segment_def)
  have hook: "transformResponse ''https://git.example.com'' ''/rest/api/1.0/projects''
       (JArr [JObj [(''id'', JNum 1)]])
     = None"
    by (simp add: transformResponse_def transformPaginatedResponse_def map_values_def get_def
          js_map_def)
  from url single hook show ?thesis by simp
qed

subsection \<open>Repository entities\<close>

lemma truthy_not_nullish: "truthy v \<Longrightarrow> \<not> nullish v"
  by (cases v) auto

lemma opt_get_truthy_not_nullish: "truthy (opt_get v k) \<Longrightarrow> \<not> nullish v"
  by (cases v) auto

lemma repository_of_fields:
  assumes "\<not> nullish repo"
    and "\<not> nullish (opt_get repo ''project'')"
    and "opt_get (opt_get repo ''project'') ''key'' = JStr key"
    and "to_string (opt_get repo ''slug'') = Some slug"
    and "to_string (opt_get repo ''id'') = Some rid"
    and "to_string (opt_get (opt_get repo ''project'') ''id'') = Some pid"
  shows "map_option (\<lambda>r. (opt_get r ''full_name'', opt_get r ''is_private''))
           (repository_of baseUrl repo)
         = Some (JStr (key @ ''/'' @ slug), JBool (\<not> truthy (opt_get repo ''public'')))"
  using assms by (simp add: repository_of_def get_def Let_def)

text \<open>
  C5. For a request URL that contains \<^verbatim>\<open>/repos/\<close> and not \<^verbatim>\<open>/pull-requests\<close>, normalizing the
  Server repository \<^verbatim>\<open>{id:1, slug:"r", project:{id:2, key:"P", name:"Proj"}, public:false}\<close>
  yields \<^verbatim>\<open>full_name\<close> \<^verbatim>\<open>"P/r"\<close> and \<^verbatim>\<open>is_private\<close> \<^verbatim>\<open>true\<close>. In general, for every payload with a
  truthy \<^verbatim>\<open>slug\<close> and an embedded project whose key is a string, on which the workspace rule
  does not fire first, the result exists, its \<^verbatim>\<open>full_name\<close> is the project key, a slash and
  the slug, and its \<^verbatim>\<open>is_private\<close> is the negation of the backend \<^verbatim>\<open>public\<close> flag.
\<close>

theorem repository_full_name_and_privacy:
  assumes "js_includes url ''/repos/''" and "\<not> js_includes url ''/pull-requests''"
  shows "map_option (\<lambda>r. (opt_get r ''full_name'', opt_get r ''is_private''))
           (transformSingleResponse baseUrl url
              (JObj [(''id'', JNum 1), (''slug'', JStr ''r''),
                     (''project'', JObj [(''id'', JNum 2), (''key'', JStr ''P''),
                                         (''name'', JStr ''Proj'')]),
                     (''public'', JBool False)]))
         = Some (JStr ''P/r'', JBool True)
       \<and> (\<not> (ends_with_segment ''/projects/'' url \<and> truthy (opt_get data ''key''))
          \<and> truthy (opt_get data ''slug'')
          \<and> to_string (opt_get data ''slug'') = Some slug
          \<and> \<not> nullish (opt_get data ''project'')
          \<and> opt_get (opt_get data ''project'') ''key'' = JStr key
          \<and> to_string (opt_get data ''id'') = Some rid
          \<and> to_string (opt_get (opt_get data ''project'') ''id'') = Some pid
          \<longrightarrow> map_option (\<lambda>r. (opt_get r ''full_name'', opt_get r ''is_private''))
                (transformSingleResponse baseUrl url data)
              = Some (JStr (key @ ''/'' @ slug), JBool (\<not> truthy (opt_get data ''public''))))"
proof -
  have dispatch: "transformSingleResponse baseUrl url d = repository_of baseUrl d"
    if "\<not> (ends_with_segment ''/projects/'' url \<and> truthy (opt_get d ''key''))"
      and "truthy (opt_get d ''slug'')" for d
  proof -
    have "\<not> nullish d" using that(2) by (rule opt_get_truthy_not_nullish)
    then show ?thesis using that assms
      by (auto simp: transformSingleResponse_def and_field_def get_def)
  qed
  let ?e = "JObj [(''id'', JNum 1), (''slug'', JStr ''r''),
                     (''project'', JObj [(''id'', JNum 2), (''key'', JStr ''P''),
                                         (''name'', JStr ''Proj'')]),
                     (''public'', JBool False)]"
  have "transformSingleResponse baseUrl url ?e = repository_of baseUrl ?e"
    by (rule dispatch) simp_all
  then have ex: "map_option (\<lambda>r. (opt_get r ''full_name'', opt_get r ''is_private''))
           (transformSingleResponse baseUrl url ?e) = Some (JStr ''P/r'', JBool True)"
    by (simp add: repository_of_def get_def string_of_int_def digit_char_def lower_char_def Let_def)
  have gen: "map_option (\<lambda>r. (opt_get r ''full_name'', opt_get r ''is_private''))
                (transformSingleResponse baseUrl url data)
              = Some (JStr (key @ ''/'' @ slug), JBool (\<not> truthy (opt_get data ''public'')))"
    if h: "\<not> (ends_with_segment ''/projects/'' url \<and> truthy (opt_get data ''key''))"
          "truthy (opt_get data ''slug'')"
          "to_string (opt_get data ''slug'') = Some slug"
          "\<not> nullish (opt_get data ''project'')"
          "opt_get (opt_get data ''project'') ''key'' = JStr key"
          "to_string (opt_get data ''id'') = Some rid"
          "to_string (opt_get (opt_get data ''project'') ''id'') = Some pid"
  proof -
    have "\<not> nullish data" using h(2) by (rule opt_get_truthy_not_nullish)
    then show ?thesis
      using dispatch[OF h(1) h(2)] repository_of_fields[OF _ h(4) h(5) h(3) h(6) h(7), of baseUrl]
      by simp
  qed
  from ex gen show ?thesis by blast
qed

theorem repository_full_name_and_privacy_witness:
  "js_includes ''/rest/api/1.0/projects/TEAM/repos/web'' ''/repos/''
   \<and> \<not> js_includes ''/rest/api/1.0/projects/TEAM/repos/web'' ''/pull-requests''
   \<and> map_option (\<lambda>r. (opt_get r ''full_name'', opt_get r ''is_private''))
        (transformSingleResponse ''https://git.example.com''
           ''/rest/api/1.0/projects/TEAM/repos/web''
           (JObj [(''id'', JNum 7), (''slug'', JStr ''web''), (''name'', JStr ''Web''),
                  (''project'', JObj [(''id'', JNum 3), (''key'', JStr ''TEAM'')]),
                  (''public'', JBool True)]))
       = Some (JStr ''TEAM/web'', JBool False)
   \<and> map_option (\<lambda>r. (opt_get r ''full_name'', opt_get r ''is_private''))
        (transformSingleResponse ''https://git.example.com''
           ''/rest/api/1.0/projects/TEAM/repos/web''
           (JObj [(''id'', JNum 1), (''slug'', JStr ''r''),
                  (''project'', JObj [(''id'', JNum 2), (''key'', JStr ''P''),
                                      (''name'', JStr ''Proj'')]),
                  (''public'', JBool False)]))
       = Some (JStr ''P/r'', JBool True)"
proof -
  have 1: "js_includes ''/rest/api/1.0/projects/TEAM/repos/web'' ''/repos/''"
    by simp
  have 2: "\<not> js_includes ''/rest/api/1.0/projects/TEAM/repos/web'' ''/pull-requests''"
    by simp
  show ?thesis
    using 1 2
      repository_full_name_and_privacy [OF 1 2,
        of "''https://git.example.com''"
           "JObj [(''id'', JNum 7), (''slug'', JStr ''web''), (''name'', JStr ''Web''),
                  (''project'', JObj [(''id'', JNum 3), (''key'', JStr ''TEAM'')]),
                  (''public'', JBool True)]"
           "''web''" "''TEAM''" "''7''" "''3''"]
    by (simp add: string_of_int_def digit_char_def)
qed

subsection \<open>Request bodies\<close>

lemma reviewers_wrapped:
  "js_opt_map_or_empty reviewer_wrapper (JArr names)
     = Some (JArr (map (\<lambda>n. JObj [(''user'', JObj [(''name'', n)])]) names))"
proof -
  have "those (map reviewer_wrapper names)
          = Some (map (\<lambda>n. JObj [(''user'', JObj [(''name'', n)])]) names)"
    by (induction names) (simp_all add: reviewer_wrapper_def)
  then show ?thesis
    by (simp add: js_opt_map_or_empty_def js_map_def)
qed

lemma reviewers_absent: "nullish v \<Longrightarrow> js_opt_map_or_empty reviewer_wrapper v = Some (JArr [])"
  by (simp add: js_opt_map_or_empty_def)

text \<open>
  C8. On a rewritten path that contains \<^verbatim>\<open>/pull-requests\<close>, a body that gives a source branch
  (flat \<^verbatim>\<open>sourceBranch\<close>, else \<^verbatim>\<open>source.branch.name\<close>) is replaced by the Server creation
  shape: \<^verbatim>\<open>fromRef\<close> and \<^verbatim>\<open>toRef\<close> are \<^verbatim>\<open>{ id: "refs/heads/<branch>", repository: { slug,
  project: { key } } }\<close> with \<^verbatim>\<open>slug\<close> and \<^verbatim>\<open>key\<close> captured from the path, the target branch is
  \<^verbatim>\<open>targetBranch\<close>, else \<^verbatim>\<open>destination.branch.name\<close>, else the literal \<^verbatim>\<open>master\<close>, and every
  reviewer identifier of the list (none when the list is absent) becomes
  \<^verbatim>\<open>{ user: { name } }\<close>. A body for a path without \<^verbatim>\<open>/pull-requests\<close> is returned unchanged.
  The request hook applies this to the body of a \<^verbatim>\<open>post\<close> or \<^verbatim>\<open>put\<close> request, on the rewritten
  URL.
\<close>

theorem pull_request_body_transform:
  assumes path: "js_includes url ''/pull-requests''"
    and source: "js_or (opt_get data ''sourceBranch'')
                   (opt_get (opt_get (opt_get data ''source'') ''branch'') ''name'') = source"
    and given: "truthy source"
    and fromBranch: "to_string source = Some fromBranch"
    and target: "js_or (opt_get data ''targetBranch'')
                   (js_or (opt_get (opt_get (opt_get data ''destination'') ''branch'') ''name'')
                      (JStr ''master'')) = target"
    and toBranch: "to_string target = Some toBranch"
    and reviewers: "opt_get data ''reviewers'' = JArr names
                    \<or> nullish (opt_get data ''reviewers'') \<and> names = []"
  shows "transformRequestBody url data =
           Some (JObj [(''title'', opt_get data ''title''),
                       (''description'', js_or (opt_get data ''description'') (JStr [])),
                       (''state'', JStr ''OPEN''),
                       (''open'', JBool True),
                       (''closed'', JBool False),
                       (''fromRef'',
                          JObj [(''id'', JStr (''refs/heads/'' @ fromBranch)),
                                (''repository'',
                                   JObj [(''slug'', capture1 ''/repos/'' url),
                                         (''project'',
                                            JObj [(''key'', capture1 ''/projects/'' url)])])]),
                       (''toRef'',
                          JObj [(''id'', JStr (''refs/heads/'' @ toBranch)),
                                (''repository'',
                                   JObj [(''slug'', capture1 ''/repos/'' url),
                                         (''project'',
                                            JObj [(''key'', capture1 ''/projects/'' url)])])]),
                       (''reviewers'',
                          JArr (map (\<lambda>n. JObj [(''user'', JObj [(''name'', n)])]) names))])
         \<and> (\<not> truthy (opt_get data ''targetBranch'')
              \<and> \<not> truthy (opt_get (opt_get (opt_get data ''destination'') ''branch'') ''name'')
            \<longrightarrow> toBranch = ''master'')
         \<and> (\<not> js_includes other ''/pull-requests'' \<longrightarrow> transformRequestBody other body = Some body)
         \<and> (req_url config \<noteq> [] \<and> truthy (req_data config)
              \<and> (req_method config = ''post'' \<or> req_method config = ''put'')
            \<longrightarrow> map_option req_data (transformRequest config)
                  = transformRequestBody (transformUrl (req_url config)) (req_data config))"
proof -
  have nn: "\<not> nullish data"
  proof
    assume "nullish data"
    then have "source = JUndefined" using source by (cases data) (auto simp: js_or_def)
    then show False using given by simp
  qed
  have rev: "js_opt_map_or_empty reviewer_wrapper (opt_get data ''reviewers'')
               = Some (JArr (map (\<lambda>n. JObj [(''user'', JObj [(''name'', n)])]) names))"
    using reviewers by (auto simp: reviewers_wrapped reviewers_absent)
  have 1: "transformRequestBody url data =
           Some (JObj [(''title'', opt_get data ''title''),
                       (''description'', js_or (opt_get data ''description'') (JStr [])),
                       (''state'', JStr ''OPEN''),
                       (''open'', JBool True),
                       (''closed'', JBool False),
                       (''fromRef'',
                          JObj [(''id'', JStr (''refs/heads/'' @ fromBranch)),
                                (''repository'',
                                   JObj [(''slug'', capture1 ''/repos/'' url),
                                         (''project'',
                                            JObj [(''key'', capture1 ''/projects/'' url)])])]),
                       (''toRef'',
                          JObj [(''id'', JStr (''refs/heads/'' @ toBranch)),
                                (''repository'',
                                   JObj [(''slug'', capture1 ''/repos/'' url),
                                         (''project'',
                                            JObj [(''key'', capture1 ''/projects/'' url)])])]),
                       (''reviewers'',
                          JArr (map (\<lambda>n. JObj [(''user'', JObj [(''name'', n)])]) names))])"
    using path nn given fromBranch toBranch source target
    by (auto simp: transformRequestBody_def get_def js_or_def rev ref_of_def Let_def
             split: if_splits)
  have 2: "toBranch = ''master''"
    if "\<not> truthy (opt_get data ''targetBranch'')"
       "\<not> truthy (opt_get (opt_get (opt_get data ''destination'') ''branch'') ''name'')"
    using that target toBranch by (auto simp: js_or_def)
  have 3: "transformRequestBody other body = Some body" if "\<not> js_includes other ''/pull-requests''"
    using that by (simp add: transformRequestBody_def)
  have 4: "map_option req_data (transformRequest config)
             = transformRequestBody (transformUrl (req_url config)) (req_data config)"
    if "req_url config \<noteq> []" "truthy (req_data config)"
       "req_method config = ''post'' \<or> req_method config = ''put''"
    using that
    by (cases "req_params config")
       (auto simp: transformRequest_def Let_def option.map_comp comp_def option.map_ident)
  from 1 2 3 4 show ?thesis by blast
qed

theorem pull_request_body_transform_witness:
  "transformRequestBody ''/rest/api/1.0/projects/P/repos/r/pull-requests''
     (JObj [(''title'', JStr ''Fix''), (''sourceBranch'', JStr ''feature''),
            (''reviewers'', JArr [JStr ''bob'', JStr ''eve''])])
   = Some (JObj [(''title'', JStr ''Fix''),
                 (''description'', JStr []),
                 (''state'', JStr ''OPEN''),
                 (''open'', JBool True),
                 (''closed'', JBool False),
                 (''fromRef'',
                    JObj [(''id'', JStr ''refs/heads/feature''),
                          (''repository'',
                             JObj [(''slug'', JStr ''r''),
                                   (''project'', JObj [(''key'', JStr ''P'')])])]),
                 (''toRef'',
                    JObj [(''id'', JStr ''refs/heads/master''),
                          (''repository'',
                             JObj [(''slug'', JStr ''r''),
                                   (''project'', JObj [(''key'', JStr ''P'')])])]),
                 (''reviewers'',
                    JArr [JObj [(''user'', JObj [(''name'', JStr ''bob'')])],
                          JObj [(''user'', JObj [(''name'', JStr ''eve'')])]])])
   \<and> transformRequestBody ''/rest/api/1.0/projects/P/repos/r/branches''
       (JObj [(''name'', JStr ''feature'')])
     = Some (JObj [(''name'', JStr ''feature'')])
   \<and> map_option req_data
       (transformRequest
          \<lparr>req_url = ''/repositories/P/r/pullrequests'', req_method = ''post'',
           req_params = None,
           req_data = JObj [(''title'', JStr ''Fix''), (''sourceBranch'', JStr ''feature''),
                            (''reviewers'', JArr [JStr ''bob'', JStr ''eve''])],
           req_originalPath = None\<rparr>)
     = transformRequestBody ''/rest/api/1.0/projects/P/repos/r/pull-requests''
         (JObj [(''title'', JStr ''Fix''), (''sourceBranch'', JStr ''feature''),
                (''reviewers'', JArr [JStr ''bob'', JStr ''eve''])])"
proof -
  have 1: "js_includes ''/rest/api/1.0/projects/P/repos/r/pull-requests'' ''/pull-requests''"
    by simp
  have 2: "js_or (opt_get (JObj [(''title'', JStr ''Fix''), (''sourceBranch'', JStr ''feature''),
                                 (''reviewers'', JArr [JStr ''bob'', JStr ''eve''])]) ''sourceBranch'')
             (opt_get (opt_get (opt_get (JObj [(''title'', JStr ''Fix''),
                 (''sourceBranch'', JStr ''feature''),
                 (''reviewers'', JArr [JStr ''bob'', JStr ''eve''])]) ''source'') ''branch'') ''name'')
           = JStr ''feature''"
    by (simp add: js_or_def)
  have 3: "truthy (JStr ''feature'')" by simp
  have 4: "to_string (JStr ''feature'') = Some ''feature''" by simp
  have 5: "js_or (opt_get (JObj [(''title'', JStr ''Fix''), (''sourceBranch'', JStr ''feature''),
                                 (''reviewers'', JArr [JStr ''bob'', JStr ''eve''])]) ''targetBranch'')
             (js_or (opt_get (opt_get (opt_get (JObj [(''title'', JStr ''Fix''),
                 (''sourceBranch'', JStr ''feature''),
                 (''reviewers'', JArr [JStr ''bob'', JStr ''eve''])]) ''destination'') ''branch'')
                 ''name'') (JStr ''master''))
           = JStr ''master''"
    by (simp add: js_or_def)
  have 6: "to_string (JStr ''master'') = Some ''master''" by simp
  have 7: "opt_get (JObj [(''title'', JStr ''Fix''), (''sourceBranch'', JStr ''feature''),
                          (''reviewers'', JArr [JStr ''bob'', JStr ''eve''])]) ''reviewers''
             = JArr [JStr ''bob'', JStr ''eve'']
           \<or> nullish (opt_get (JObj [(''title'', JStr ''Fix''), (''sourceBranch'', JStr ''feature''),
                          (''reviewers'', JArr [JStr ''bob'', JStr ''eve''])]) ''reviewers'')
             \<and> [JStr ''bob'', JStr ''eve''] = []"
    by simp
  show ?thesis
    using pull_request_body_transform [OF 1 2 3 4 5 6 7,
            of "''/rest/api/1.0/projects/P/repos/r/branches''" "JObj [(''name'', JStr ''feature'')]"
               "\<lparr>req_url = ''/repositories/P/r/pullrequests'', req_method = ''post'',
                 req_params = None,
                 req_data = JObj [(''title'', JStr ''Fix''), (''sourceBranch'', JStr ''feature''),
                                  (''reviewers'', JArr [JStr ''bob'', JStr ''eve''])],
                 req_originalPath = None\<rparr>"]
    by (simp add: capture1_def segment_def not_slash_def js_or_def transformUrl_def
          match_one_segment_def match_single_repo_def match_repo_prefix_def
          replace_repo_prefix_def after_segment_def)
qed

subsection \<open>Searching and replacing across segments\<close>

text \<open>
  Every literal of the sub-resource rules begins with a slash, so an occurrence cannot begin
  inside a segment, and at a segment boundary it depends on how the segment begins.
\<close>

lemma js_includes_skip_segment:
  "CHR ''/'' \<notin> set seg \<Longrightarrow> js_includes (seg @ t) (CHR ''/'' # w) = js_includes t (CHR ''/'' # w)"
  by (induction seg) auto

lemma js_replace_skip_segment:
  "CHR ''/'' \<notin> set seg \<Longrightarrow>
   js_replace (seg @ t) (CHR ''/'' # w) r = seg @ js_replace t (CHR ''/'' # w) r"
  by (induction seg) auto

lemma prefix_into_segment:
  assumes "CHR ''/'' \<notin> set w" and "t = [] \<or> hd t = CHR ''/''"
  shows "prefix w (seg @ t) \<longleftrightarrow> prefix w seg"
proof
  assume "prefix w (seg @ t)"
  then consider "prefix w seg" | us where "w = seg @ us" "prefix us t" "us \<noteq> []"
    unfolding prefix_append by (cases "prefix w seg") auto
  then show "prefix w seg"
  proof cases
    case 1
    then show ?thesis .
  next
    case 2
    then obtain c us' where us: "us = c # us'" by (cases us) auto
    with 2 have "t \<noteq> []" "hd t = c" by (auto simp: prefix_def)
    with assms(2) have "c = CHR ''/''" by auto
    with 2(1) us assms(1) show ?thesis by auto
  qed
next
  assume "prefix w seg"
  then show "prefix w (seg @ t)" by (simp add: prefix_prefix)
qed

lemma prefix_whole_segment:
  "CHR ''/'' \<notin> set w \<Longrightarrow> CHR ''/'' \<notin> set seg \<Longrightarrow>
   prefix (w @ ''/'') (seg @ CHR ''/'' # t) \<longleftrightarrow> seg = w"
proof (induction seg arbitrary: w)
  case Nil
  then show ?case by (cases w) auto
next
  case (Cons c cs)
  then show ?case by (cases w) auto
qed

lemma no_one_segment:
  "match_one_segment lit (lit @ a @ CHR ''/'' # b) = None"
proof (cases "match_one_segment lit (lit @ a @ CHR ''/'' # b)")
  case (Some x)
  then have "lit @ a @ CHR ''/'' # b = lit @ x \<and> CHR ''/'' \<notin> set x"
    unfolding match_one_segment_iff by blast
  then have False by auto
  then show ?thesis ..
qed simp

subsection \<open>The diffstat rule\<close>

text \<open>
  Where the diffstat rule does what its comment says: when no segment begins with
  \<^verbatim>\<open>diffstat\<close> and neither the workspace nor the repository is named \<^verbatim>\<open>pullrequests\<close>.
\<close>

lemma diffstat_rule_on_plain_segments:
  assumes ws: "ws \<noteq> []" "CHR ''/'' \<notin> set ws"
    and repo: "repo \<noteq> []" "CHR ''/'' \<notin> set repo"
    and pid: "CHR ''/'' \<notin> set pid"
    and npr: "ws \<noteq> ''pullrequests''" "repo \<noteq> ''pullrequests''"
    and nds: "\<not> prefix ''diffstat'' ws" "\<not> prefix ''diffstat'' repo" "\<not> prefix ''diffstat'' pid"
  shows "transformUrl (''/repositories/'' @ ws @ ''/'' @ repo @ ''/pullrequests/'' @ pid @ ''/diffstat'')
           = ''/rest/api/1.0/projects/'' @ ws @ ''/repos/'' @ repo @ ''/pull-requests/'' @ pid @ ''/changes''"
proof -
  let ?u = "''/repositories/'' @ ws @ ''/'' @ repo @ ''/pullrequests/'' @ pid @ ''/diffstat''"
  let ?u1 = "''/repositories/'' @ ws @ ''/'' @ repo @ ''/pull-requests/'' @ pid @ ''/diffstat''"
  let ?u2 = "''/rest/api/1.0/projects/'' @ ws @ ''/repos/'' @ repo @ ''/pull-requests/'' @ pid @ ''/diffstat''"
  have r1: "match_one_segment ''/repositories/'' ?u = None"
  proof (cases "match_one_segment ''/repositories/'' ?u")
    case (Some a)
    then have "?u = ''/repositories/'' @ a \<and> CHR ''/'' \<notin> set a"
      unfolding match_one_segment_iff by blast
    then have False by auto
    then show ?thesis ..
  qed simp
  have m: "match_repo_prefix ?u = Some (ws, repo, ''/pullrequests/'' @ pid @ ''/diffstat'')"
    unfolding match_repo_prefix_iff using ws repo by simp
  then have r2: "match_single_repo ?u = None" by (simp add: match_single_repo_def)
  have inc: "js_includes ?u ''/diffstat''"
    unfolding js_includes_iff
    by (rule exI[of _ "''/repositories/'' @ ws @ ''/'' @ repo @ ''/pullrequests/'' @ pid"],
        rule exI[of _ "[]"]) simp
  have p1: "\<not> prefix ''pullrequests/'' (ws @ CHR ''/'' # t)" for t
    using prefix_whole_segment[of "''pullrequests''" ws t] ws npr by simp
  have p2: "\<not> prefix ''pullrequests/'' (repo @ CHR ''/'' # t)" for t
    using prefix_whole_segment[of "''pullrequests''" repo t] repo npr by simp
  have s1: "js_replace ?u ''/pullrequests/'' ''/pull-requests/'' = ?u1"
    using ws repo by (simp add: js_replace_skip_segment p1 p2)
  have m1: "match_repo_prefix ?u1 = Some (ws, repo, ''/pull-requests/'' @ pid @ ''/diffstat'')"
    unfolding match_repo_prefix_iff using ws repo by simp
  have s2: "replace_repo_prefix ?u1 = ?u2"
    by (simp only: replace_repo_prefix_def m1 option.case prod.case)
  have d1: "\<not> prefix ''diffstat'' (ws @ CHR ''/'' # t)" for t
    using prefix_into_segment[of "''diffstat''" "CHR ''/'' # t" ws] nds by simp
  have d2: "\<not> prefix ''diffstat'' (repo @ CHR ''/'' # t)" for t
    using prefix_into_segment[of "''diffstat''" "CHR ''/'' # t" repo] nds by simp
  have d3: "\<not> prefix ''diffstat'' (pid @ CHR ''/'' # t)" for t
    using prefix_into_segment[of "''diffstat''" "CHR ''/'' # t" pid] nds by simp
  have s3: "js_replace ?u2 ''/diffstat'' ''/changes''
      = ''/rest/api/1.0/projects/'' @ ws @ ''/repos/'' @ repo @ ''/pull-requests/'' @ pid @ ''/changes''"
    using ws repo pid by (simp add: js_replace_skip_segment d1 d2 d3)
  show ?thesis
    by (simp only: transformUrl_def r1 r2 inc s1 s2 s3 option.case if_True)
qed

text \<open>
  C1. For a canonical path \<^verbatim>\<open>/repositories/{ws}/{repo}/pullrequests/{id}/diffstat\<close> the rewriter is
  to return \<^verbatim>\<open>/rest/api/1.0/projects/{ws}/repos/{repo}/pull-requests/{id}/changes\<close>, a path that
  contains \<^verbatim>\<open>/pull-requests/{id}/changes\<close> and never \<^verbatim>\<open>/diffstat\<close>. It does not for every such
  path: the replacement of \<^verbatim>\<open>/diffstat\<close> acts on the first occurrence, so for the workspace
  named \<^verbatim>\<open>diffstat\<close> the result names the project \<^verbatim>\<open>changes\<close> and still ends in \<^verbatim>\<open>/diffstat\<close>.
\<close>

theorem workspace_named_diffstat:
  "transformUrl ''/repositories/diffstat/repo1/pullrequests/5/diffstat''
     = ''/rest/api/1.0/projects/changes/repos/repo1/pull-requests/5/diffstat''
   \<and> js_includes (transformUrl ''/repositories/diffstat/repo1/pullrequests/5/diffstat'')
         ''/diffstat''
   \<and> \<not> js_includes (transformUrl ''/repositories/diffstat/repo1/pullrequests/5/diffstat'')
         ''/pull-requests/5/changes''"
proof -
  have result: "transformUrl ''/repositories/diffstat/repo1/pullrequests/5/diffstat''
     = ''/rest/api/1.0/projects/changes/repos/repo1/pull-requests/5/diffstat''"
    by (simp add: transformUrl_def match_one_segment_def match_single_repo_def
          match_repo_prefix_def replace_repo_prefix_def segment_def after_segment_def
          not_slash_def)
  show ?thesis unfolding result by simp
qed

subsection \<open>Rewriting twice\<close>

lemma transformUrl_no_rule:
  assumes "match_one_segment ''/repositories/'' v = None"
    and "match_single_repo v = None"
    and "\<not> js_includes v ''/diffstat''"
    and "\<not> js_includes v ''/pullrequests''"
    and "v \<noteq> ''/workspaces''"
    and "match_one_segment ''/workspaces/'' v = None"
    and "\<not> js_includes v ''/branching-model''"
  shows "transformUrl v = v"
proof -
  have "\<not> js_includes v ''/pullrequests/''"
    using js_includes_longer[of v "''/pullrequests''" "''/''"] assms(4) by auto
  then show ?thesis using assms by (simp add: transformUrl_def)
qed

lemma server_path_fixed:
  assumes "\<not> js_includes (CHR ''/'' # x) ''/pullrequests''"
    and "\<not> js_includes (CHR ''/'' # x) ''/diffstat''"
    and "\<not> js_includes (CHR ''/'' # x) ''/branching-model''"
  shows "transformUrl (''/rest/api/1.0/projects/'' @ x) = ''/rest/api/1.0/projects/'' @ x"
proof (rule transformUrl_no_rule)
  show "match_one_segment ''/repositories/'' (''/rest/api/1.0/projects/'' @ x) = None"
    by (simp add: match_one_segment_def)
  show "match_single_repo (''/rest/api/1.0/projects/'' @ x) = None"
    by (simp add: match_single_repo_def match_repo_prefix_def)
  show "''/rest/api/1.0/projects/'' @ x \<noteq> ''/workspaces''" by simp
  show "match_one_segment ''/workspaces/'' (''/rest/api/1.0/projects/'' @ x) = None"
    by (simp add: match_one_segment_def)
  show "\<not> js_includes (''/rest/api/1.0/projects/'' @ x) ''/diffstat''"
    using assms(2) by simp
  show "\<not> js_includes (''/rest/api/1.0/projects/'' @ x) ''/pullrequests''"
    using assms(1) by simp
  show "\<not> js_includes (''/rest/api/1.0/projects/'' @ x) ''/branching-model''"
    using assms(3) by simp
qed

lemma plain_junction:
  assumes "plain_segment s" and "t = [] \<or> hd t = CHR ''/''"
  shows "\<not> prefix ''pullrequests'' (s @ t)"
    and "\<not> prefix ''pullrequests/'' (s @ t)"
    and "\<not> prefix ''diff'' (s @ t)"
    and "\<not> prefix ''diffstat'' (s @ t)"
    and "\<not> prefix ''comments'' (s @ t)"
    and "\<not> prefix ''activity'' (s @ t)"
    and "\<not> prefix ''branching-model'' (s @ t)"
proof -
  show 1: "\<not> prefix ''pullrequests'' (s @ t)"
    using assms prefix_into_segment[of "''pullrequests''" t s] by (simp add: plain_segment_def)
  show "\<not> prefix ''pullrequests/'' (s @ t)"
  proof
    assume "prefix ''pullrequests/'' (s @ t)"
    moreover have "prefix ''pullrequests'' ''pullrequests/''" by simp
    ultimately have "prefix ''pullrequests'' (s @ t)" by (rule prefix_order.trans[rotated])
    with 1 show False ..
  qed
  show 2: "\<not> prefix ''diff'' (s @ t)"
    using assms prefix_into_segment[of "''diff''" t s] by (simp add: plain_segment_def)
  show "\<not> prefix ''diffstat'' (s @ t)"
  proof
    assume "prefix ''diffstat'' (s @ t)"
    moreover have "prefix ''diff'' ''diffstat''" by simp
    ultimately have "prefix ''diff'' (s @ t)" by (rule prefix_order.trans[rotated])
    with 2 show False ..
  qed
  show "\<not> prefix ''comments'' (s @ t)"
    using assms prefix_into_segment[of "''comments''" t s] by (simp add: plain_segment_def)
  show "\<not> prefix ''activity'' (s @ t)"
    using assms prefix_into_segment[of "''activity''" t s] by (simp add: plain_segment_def)
  show "\<not> prefix ''branching-model'' (s @ t)"
    using assms prefix_into_segment[of "''branching-model''" t s] by (simp add: plain_segment_def)
qed

lemmas plain_end = plain_junction[where t = "[]", simplified]

lemma plain_no_slash: "plain_segment s \<Longrightarrow> CHR ''/'' \<notin> set s" "plain_segment s \<Longrightarrow> s \<noteq> []"
  by (simp_all add: plain_segment_def)

lemma twice_repo_list:
  assumes "plain_segment ws"
  shows "transformUrl (transformUrl (''/repositories/'' @ ws)) = transformUrl (''/repositories/'' @ ws)"
proof -
  note [simp] = plain_no_slash[OF assms] plain_junction[OF assms] js_includes_skip_segment
  have e: "transformUrl (''/repositories/'' @ ws) = ''/rest/api/1.0/projects/'' @ (ws @ ''/repos'')"
    using transformUrl_repo_list[of ws] by simp
  show ?thesis
    unfolding e by (rule server_path_fixed) simp_all
qed

lemma twice_single_repo:
  assumes "plain_segment ws" "plain_segment repo"
  shows "transformUrl (transformUrl (''/repositories/'' @ ws @ ''/'' @ repo))
           = transformUrl (''/repositories/'' @ ws @ ''/'' @ repo)"
proof -
  note [simp] = plain_no_slash[OF assms(1)] plain_junction[OF assms(1)]
    plain_no_slash[OF assms(2)] plain_junction[OF assms(2)] plain_end[OF assms(2)]
    js_includes_skip_segment
  have e: "transformUrl (''/repositories/'' @ ws @ ''/'' @ repo)
             = ''/rest/api/1.0/projects/'' @ (ws @ ''/repos/'' @ repo)"
    using transformUrl_single_repo[of ws repo] by simp
  have "js_includes repo (CHR ''/'' # w) = False" for w
    using js_includes_skip_segment[of repo "[]" w] by simp
  note [simp] = this
  show ?thesis
    unfolding e by (rule server_path_fixed) simp_all
qed

lemma path_of_segments_head: "path_of_segments ss = [] \<or> hd (path_of_segments ss) = CHR ''/''"
  by (cases ss) simp_all

lemma plain_path_free:
  assumes "list_all plain_segment ss"
  shows "\<not> js_includes (path_of_segments ss) ''/pullrequests''"
    and "\<not> js_includes (path_of_segments ss) ''/diff''"
    and "\<not> js_includes (path_of_segments ss) ''/diffstat''"
    and "\<not> js_includes (path_of_segments ss) ''/comments''"
    and "\<not> js_includes (path_of_segments ss) ''/activity''"
    and "\<not> js_includes (path_of_segments ss) ''/branching-model''"
  using assms
  by (induction ss)
     (simp_all add: plain_junction[OF _ path_of_segments_head] js_includes_skip_segment
        plain_no_slash)

lemma rewrite_pull_request_paths:
  assumes ws: "plain_segment ws" and repo: "plain_segment repo" and pid: "plain_segment pid"
    and ss: "list_all plain_segment ss"
  shows "transformUrl (''/repositories/'' @ ws @ ''/'' @ repo @ ''/pullrequests'' @ path_of_segments ss)
           = ''/rest/api/1.0/projects/'' @ ws @ ''/repos/'' @ repo @ ''/pull-requests''
               @ path_of_segments ss"
    and "transformUrl (''/repositories/'' @ ws @ ''/'' @ repo @ ''/pullrequests/'' @ pid @ ''/diffstat'')
           = ''/rest/api/1.0/projects/'' @ ws @ ''/repos/'' @ repo @ ''/pull-requests/'' @ pid
               @ ''/changes''"
    and "transformUrl (''/repositories/'' @ ws @ ''/'' @ repo @ ''/pullrequests/'' @ pid @ ''/diff'')
           = ''/rest/api/1.0/projects/'' @ ws @ ''/repos/'' @ repo @ ''/pull-requests/'' @ pid
               @ ''/diff''"
    and "transformUrl (''/repositories/'' @ ws @ ''/'' @ repo @ ''/pullrequests/'' @ pid @ ''/comments'')
           = ''/rest/api/1.0/projects/'' @ ws @ ''/repos/'' @ repo @ ''/pull-requests/'' @ pid
               @ ''/activities''"
    and "transformUrl (''/repositories/'' @ ws @ ''/'' @ repo @ ''/pullrequests/'' @ pid @ ''/activity'')
           = ''/rest/api/1.0/projects/'' @ ws @ ''/repos/'' @ repo @ ''/pull-requests/'' @ pid
               @ ''/activities''"
proof -
  note [simp] = plain_no_slash[OF ws] plain_junction[OF ws]
    plain_no_slash[OF repo] plain_junction[OF repo]
    plain_no_slash[OF pid] plain_junction[OF pid]
    plain_path_free[OF ss]
    js_includes_skip_segment js_replace_skip_segment
  have r1: "match_one_segment ''/repositories/'' (''/repositories/'' @ ws @ ''/'' @ repo @ t) = None"
    for t
    using no_one_segment[of "''/repositories/''" ws "repo @ t"] by simp
  have m: "match_repo_prefix (''/repositories/'' @ ws @ ''/'' @ repo @ CHR ''/'' # t)
             = Some (ws, repo, CHR ''/'' # t)" for t
    unfolding match_repo_prefix_iff by simp
  have r2: "match_single_repo (''/repositories/'' @ ws @ ''/'' @ repo @ CHR ''/'' # t) = None" for t
    by (simp only: match_single_repo_def m option.case prod.case) simp
  have s2: "replace_repo_prefix (''/repositories/'' @ ws @ ''/'' @ repo @ CHR ''/'' # t)
              = ''/rest/api/1.0/projects/'' @ ws @ ''/repos/'' @ repo @ CHR ''/'' # t" for t
    by (simp only: replace_repo_prefix_def m option.case prod.case)
  show "transformUrl (''/repositories/'' @ ws @ ''/'' @ repo @ ''/pullrequests'' @ path_of_segments ss)
           = ''/rest/api/1.0/projects/'' @ ws @ ''/repos/'' @ repo @ ''/pull-requests''
               @ path_of_segments ss"
  proof -
    let ?t = "''pullrequests'' @ path_of_segments ss"
    let ?u = "''/repositories/'' @ ws @ ''/'' @ repo @ CHR ''/'' # ?t"
    have c3: "\<not> js_includes ?u ''/diffstat''" by simp
    have c4: "\<not> js_includes ?u ''/diff''" by simp
    have c5: "\<not> js_includes ?u ''/comments''" by simp
    have c6: "\<not> js_includes ?u ''/activity''" by simp
    have c7: "js_includes ?u ''/pullrequests''" by simp
    have s1: "js_replace ?u ''/pullrequests'' ''/pull-requests''
                = ''/repositories/'' @ ws @ ''/'' @ repo @ CHR ''/'' # ''pull-requests'' @ path_of_segments ss"
      by simp
    have "transformUrl ?u = ''/rest/api/1.0/projects/'' @ ws @ ''/repos/'' @ repo
             @ CHR ''/'' # ''pull-requests'' @ path_of_segments ss"
      by (simp only: transformUrl_def r1 r2 c3 c4 c5 c6 c7 s1 s2 option.case if_True if_False
            simp_thms)
    then show ?thesis by simp
  qed
  show "transformUrl (''/repositories/'' @ ws @ ''/'' @ repo @ ''/pullrequests/'' @ pid @ ''/diffstat'')
           = ''/rest/api/1.0/projects/'' @ ws @ ''/repos/'' @ repo @ ''/pull-requests/'' @ pid
               @ ''/changes''"
  proof -
    let ?u = "''/repositories/'' @ ws @ ''/'' @ repo @ CHR ''/'' # ''pullrequests/'' @ pid @ ''/diffstat''"
    have c3: "js_includes ?u ''/diffstat''" by simp
    have s1: "js_replace ?u ''/pullrequests/'' ''/pull-requests/''
                = ''/repositories/'' @ ws @ ''/'' @ repo @ CHR ''/'' # ''pull-requests/'' @ pid @ ''/diffstat''"
      by simp
    have s3: "js_replace (''/rest/api/1.0/projects/'' @ ws @ ''/repos/'' @ repo
                  @ CHR ''/'' # ''pull-requests/'' @ pid @ ''/diffstat'') ''/diffstat'' ''/changes''
                = ''/rest/api/1.0/projects/'' @ ws @ ''/repos/'' @ repo
                  @ CHR ''/'' # ''pull-requests/'' @ pid @ ''/changes''"
      by simp
    have "transformUrl ?u = ''/rest/api/1.0/projects/'' @ ws @ ''/repos/'' @ repo
                  @ CHR ''/'' # ''pull-requests/'' @ pid @ ''/changes''"
      by (simp only: transformUrl_def r1 r2 c3 s1 s2 s3 option.case if_True if_False simp_thms)
    then show ?thesis by simp
  qed
  show "transformUrl (''/repositories/'' @ ws @ ''/'' @ repo @ ''/pullrequests/'' @ pid @ ''/diff'')
           = ''/rest/api/1.0/projects/'' @ ws @ ''/repos/'' @ repo @ ''/pull-requests/'' @ pid
               @ ''/diff''"
  proof -
    let ?u = "''/repositories/'' @ ws @ ''/'' @ repo @ CHR ''/'' # ''pullrequests/'' @ pid @ ''/diff''"
    have c3: "\<not> js_includes ?u ''/diffstat''" by simp
    have c4: "js_includes ?u ''/diff''" "js_includes ?u ''/pullrequests/''" by simp_all
    have s1: "js_replace ?u ''/pullrequests/'' ''/pull-requests/''
                = ''/repositories/'' @ ws @ ''/'' @ repo @ CHR ''/'' # ''pull-requests/'' @ pid @ ''/diff''"
      by simp
    have "transformUrl ?u = ''/rest/api/1.0/projects/'' @ ws @ ''/repos/'' @ repo
                  @ CHR ''/'' # ''pull-requests/'' @ pid @ ''/diff''"
      by (simp only: transformUrl_def r1 r2 c3 c4 s1 s2 option.case if_True if_False simp_thms)
    then show ?thesis by simp
  qed
  show "transformUrl (''/repositories/'' @ ws @ ''/'' @ repo @ ''/pullrequests/'' @ pid @ ''/comments'')
           = ''/rest/api/1.0/projects/'' @ ws @ ''/repos/'' @ repo @ ''/pull-requests/'' @ pid
               @ ''/activities''"
  proof -
    let ?u = "''/repositories/'' @ ws @ ''/'' @ repo @ CHR ''/'' # ''pullrequests/'' @ pid @ ''/comments''"
    have c3: "\<not> js_includes ?u ''/diffstat''" "\<not> js_includes ?u ''/diff''" by simp_all
    have c5: "js_includes ?u ''/comments''" "js_includes ?u ''/pullrequests/''" by simp_all
    have s1: "js_replace ?u ''/pullrequests/'' ''/pull-requests/''
                = ''/repositories/'' @ ws @ ''/'' @ repo @ CHR ''/'' # ''pull-requests/'' @ pid @ ''/comments''"
      by simp
    have s3: "js_replace (''/rest/api/1.0/projects/'' @ ws @ ''/repos/'' @ repo
                  @ CHR ''/'' # ''pull-requests/'' @ pid @ ''/comments'') ''/comments'' ''/activities''
                = ''/rest/api/1.0/projects/'' @ ws @ ''/repos/'' @ repo
                  @ CHR ''/'' # ''pull-requests/'' @ pid @ ''/activities''"
      by simp
    have "transformUrl ?u = ''/rest/api/1.0/projects/'' @ ws @ ''/repos/'' @ repo
                  @ CHR ''/'' # ''pull-requests/'' @ pid @ ''/activities''"
      by (simp only: transformUrl_def r1 r2 c3 c5 s1 s2 s3 option.case if_True if_False simp_thms)
    then show ?thesis by simp
  qed
  show "transformUrl (''/repositories/'' @ ws @ ''/'' @ repo @ ''/pullrequests/'' @ pid @ ''/activity'')
           = ''/rest/api/1.0/projects/'' @ ws @ ''/repos/'' @ repo @ ''/pull-requests/'' @ pid
               @ ''/activities''"
  proof -
    let ?u = "''/repositories/'' @ ws @ ''/'' @ repo @ CHR ''/'' # ''pullrequests/'' @ pid @ ''/activity''"
    have c3: "\<not> js_includes ?u ''/diffstat''" "\<not> js_includes ?u ''/diff''"
      "\<not> js_includes ?u ''/comments''" by simp_all
    have c5: "js_includes ?u ''/activity''" "js_includes ?u ''/pullrequests/''" by simp_all
    have s1: "js_replace ?u ''/pullrequests/'' ''/pull-requests/''
                = ''/repositories/'' @ ws @ ''/'' @ repo @ CHR ''/'' # ''pull-requests/'' @ pid @ ''/activity''"
      by simp
    have s3: "js_replace (''/rest/api/1.0/projects/'' @ ws @ ''/repos/'' @ repo
                  @ CHR ''/'' # ''pull-requests/'' @ pid @ ''/activity'') ''/activity'' ''/activities''
                = ''/rest/api/1.0/projects/'' @ ws @ ''/repos/'' @ repo
                  @ CHR ''/'' # ''pull-requests/'' @ pid @ ''/activities''"
      by simp
    have "transformUrl ?u = ''/rest/api/1.0/projects/'' @ ws @ ''/repos/'' @ repo
                  @ CHR ''/'' # ''pull-requests/'' @ pid @ ''/activities''"
      by (simp only: transformUrl_def r1 r2 c3 c5 s1 s2 s3 option.case if_True if_False simp_thms)
    then show ?thesis by simp
  qed
qed

lemma server_pull_request_paths_fixed:
  assumes ws: "plain_segment ws" and repo: "plain_segment repo" and pid: "plain_segment pid"
    and ss: "list_all plain_segment ss"
  shows "transformUrl (''/rest/api/1.0/projects/'' @ ws @ ''/repos/'' @ repo @ ''/pull-requests''
               @ path_of_segments ss)
           = ''/rest/api/1.0/projects/'' @ ws @ ''/repos/'' @ repo @ ''/pull-requests''
               @ path_of_segments ss"
    and "transformUrl (''/rest/api/1.0/projects/'' @ ws @ ''/repos/'' @ repo @ ''/pull-requests/'' @ pid
               @ ''/changes'')
           = ''/rest/api/1.0/projects/'' @ ws @ ''/repos/'' @ repo @ ''/pull-requests/'' @ pid
               @ ''/changes''"
    and "transformUrl (''/rest/api/1.0/projects/'' @ ws @ ''/repos/'' @ repo @ ''/pull-requests/'' @ pid
               @ ''/diff'')
           = ''/rest/api/1.0/projects/'' @ ws @ ''/repos/'' @ repo @ ''/pull-requests/'' @ pid
               @ ''/diff''"
    and "transformUrl (''/rest/api/1.0/projects/'' @ ws @ ''/repos/'' @ repo @ ''/pull-requests/'' @ pid
               @ ''/activities'')
           = ''/rest/api/1.0/projects/'' @ ws @ ''/repos/'' @ repo @ ''/pull-requests/'' @ pid
               @ ''/activities''"
proof -
  note [simp] = plain_no_slash[OF ws] plain_junction[OF ws]
    plain_no_slash[OF repo] plain_junction[OF repo]
    plain_no_slash[OF pid] plain_junction[OF pid]
    plain_path_free[OF ss]
    js_includes_skip_segment
  have 1: "transformUrl (''/rest/api/1.0/projects/'' @ (ws @ ''/repos/'' @ repo @ ''/pull-requests''
               @ path_of_segments ss))
           = ''/rest/api/1.0/projects/'' @ (ws @ ''/repos/'' @ repo @ ''/pull-requests''
               @ path_of_segments ss)"
    by (rule server_path_fixed) simp_all
  have 2: "transformUrl (''/rest/api/1.0/projects/'' @ (ws @ ''/repos/'' @ repo @ ''/pull-requests/'' @ pid
               @ ''/changes''))
           = ''/rest/api/1.0/projects/'' @ (ws @ ''/repos/'' @ repo @ ''/pull-requests/'' @ pid
               @ ''/changes'')"
    by (rule server_path_fixed) simp_all
  have 3: "transformUrl (''/rest/api/1.0/projects/'' @ (ws @ ''/repos/'' @ repo @ ''/pull-requests/'' @ pid
               @ ''/diff''))
           = ''/rest/api/1.0/projects/'' @ (ws @ ''/repos/'' @ repo @ ''/pull-requests/'' @ pid
               @ ''/diff'')"
    by (rule server_path_fixed) simp_all
  have 4: "transformUrl (''/rest/api/1.0/projects/'' @ (ws @ ''/repos/'' @ repo @ ''/pull-requests/'' @ pid
               @ ''/activities''))
           = ''/rest/api/1.0/projects/'' @ (ws @ ''/repos/'' @ repo @ ''/pull-requests/'' @ pid
               @ ''/activities'')"
    by (rule server_path_fixed) simp_all
  from 1 show "transformUrl (''/rest/api/1.0/projects/'' @ ws @ ''/repos/'' @ repo @ ''/pull-requests''
               @ path_of_segments ss)
           = ''/rest/api/1.0/projects/'' @ ws @ ''/repos/'' @ repo @ ''/pull-requests''
               @ path_of_segments ss" by simp
  from 2 show "transformUrl (''/rest/api/1.0/projects/'' @ ws @ ''/repos/'' @ repo @ ''/pull-requests/'' @ pid
               @ ''/changes'')
           = ''/rest/api/1.0/projects/'' @ ws @ ''/repos/'' @ repo @ ''/pull-requests/'' @ pid
               @ ''/changes''" by simp
  from 3 show "transformUrl (''/rest/api/1.0/projects/'' @ ws @ ''/repos/'' @ repo @ ''/pull-requests/'' @ pid
               @ ''/diff'')
           = ''/rest/api/1.0/projects/'' @ ws @ ''/repos/'' @ repo @ ''/pull-requests/'' @ pid
               @ ''/diff''" by simp
  from 4 show "transformUrl (''/rest/api/1.0/projects/'' @ ws @ ''/repos/'' @ repo @ ''/pull-requests/'' @ pid
               @ ''/activities'')
           = ''/rest/api/1.0/projects/'' @ ws @ ''/repos/'' @ repo @ ''/pull-requests/'' @ pid
               @ ''/activities''" by simp
qed

lemma rewrite_workspace:
  assumes ws: "plain_segment ws"
  shows "transformUrl (''/workspaces/'' @ ws) = ''/rest/api/1.0/projects/'' @ ws"
    and "transformUrl (''/rest/api/1.0/projects/'' @ ws) = ''/rest/api/1.0/projects/'' @ ws"
proof -
  note [simp] = plain_no_slash[OF ws] plain_junction[OF ws] plain_end[OF ws]
    js_includes_skip_segment
  have none: "js_includes ws (CHR ''/'' # w) = False" for w
    using js_includes_skip_segment[of ws "[]" w] by simp
  have m: "match_one_segment ''/workspaces/'' (''/workspaces/'' @ ws) = Some ws"
    unfolding match_one_segment_iff by simp
  have r1: "match_one_segment ''/repositories/'' (''/workspaces/'' @ ws) = None"
    by (simp add: match_one_segment_def)
  have r2: "match_single_repo (''/workspaces/'' @ ws) = None"
    by (simp add: match_single_repo_def match_repo_prefix_def)
  have c: "\<not> js_includes (''/workspaces/'' @ ws) ''/diffstat''"
    "\<not> js_includes (''/workspaces/'' @ ws) ''/diff''"
    "\<not> js_includes (''/workspaces/'' @ ws) ''/pullrequests/''"
    "\<not> js_includes (''/workspaces/'' @ ws) ''/pullrequests''"
    "''/workspaces/'' @ ws \<noteq> ''/workspaces''"
    by (simp_all add: none)
  show "transformUrl (''/workspaces/'' @ ws) = ''/rest/api/1.0/projects/'' @ ws"
    by (simp only: transformUrl_def r1 r2 c m option.case if_False simp_thms)
  show "transformUrl (''/rest/api/1.0/projects/'' @ ws) = ''/rest/api/1.0/projects/'' @ ws"
    by (rule server_path_fixed) (simp_all add: none)
qed

text \<open>
  C10, as amended. Applying the rewriter twice gives the same path as applying it once for
  every input whose rewritten path matches no rule: it is not of the form
  \<^verbatim>\<open>/repositories/{a}\<close>, \<^verbatim>\<open>/repositories/{a}/{b}\<close>, \<^verbatim>\<open>/workspaces\<close> or \<^verbatim>\<open>/workspaces/{a}\<close> and
  contains none of \<^verbatim>\<open>/pullrequests\<close>, \<^verbatim>\<open>/diffstat\<close>, \<^verbatim>\<open>/branching-model\<close>. This covers the canonical
  paths of a repository list, a repository, a workspace, and a pull-request collection,
  element or sub-resource (with their \<^verbatim>\<open>diffstat\<close>, \<^verbatim>\<open>diff\<close>, \<^verbatim>\<open>comments\<close> and \<^verbatim>\<open>activity\<close>
  forms), whenever their variable segments are plain.
\<close>

theorem rewrite_twice:
  "(match_one_segment ''/repositories/'' (transformUrl u) = None
      \<and> match_single_repo (transformUrl u) = None
      \<and> \<not> js_includes (transformUrl u) ''/diffstat''
      \<and> \<not> js_includes (transformUrl u) ''/pullrequests''
      \<and> transformUrl u \<noteq> ''/workspaces''
      \<and> match_one_segment ''/workspaces/'' (transformUrl u) = None
      \<and> \<not> js_includes (transformUrl u) ''/branching-model''
    \<longrightarrow> transformUrl (transformUrl u) = transformUrl u)
   \<and> (plain_segment ws \<longrightarrow>
        transformUrl (transformUrl (''/repositories/'' @ ws)) = transformUrl (''/repositories/'' @ ws)
        \<and> transformUrl (transformUrl (''/workspaces/'' @ ws)) = transformUrl (''/workspaces/'' @ ws))
   \<and> (plain_segment ws \<and> plain_segment repo \<longrightarrow>
        transformUrl (transformUrl (''/repositories/'' @ ws @ ''/'' @ repo))
          = transformUrl (''/repositories/'' @ ws @ ''/'' @ repo))
   \<and> (plain_segment ws \<and> plain_segment repo \<and> list_all plain_segment ss \<longrightarrow>
        transformUrl (transformUrl
            (''/repositories/'' @ ws @ ''/'' @ repo @ ''/pullrequests'' @ path_of_segments ss))
          = transformUrl
            (''/repositories/'' @ ws @ ''/'' @ repo @ ''/pullrequests'' @ path_of_segments ss))
   \<and> (plain_segment ws \<and> plain_segment repo \<and> plain_segment pid
        \<and> sub \<in> set [''diffstat'', ''diff'', ''comments'', ''activity''] \<longrightarrow>
        transformUrl (transformUrl
            (''/repositories/'' @ ws @ ''/'' @ repo @ ''/pullrequests/'' @ pid @ ''/'' @ sub))
          = transformUrl
            (''/repositories/'' @ ws @ ''/'' @ repo @ ''/pullrequests/'' @ pid @ ''/'' @ sub))"
proof -
  have a: "transformUrl (transformUrl u) = transformUrl u"
    if "match_one_segment ''/repositories/'' (transformUrl u) = None"
      "match_single_repo (transformUrl u) = None"
      "\<not> js_includes (transformUrl u) ''/diffstat''"
      "\<not> js_includes (transformUrl u) ''/pullrequests''"
      "transformUrl u \<noteq> ''/workspaces''"
      "match_one_segment ''/workspaces/'' (transformUrl u) = None"
      "\<not> js_includes (transformUrl u) ''/branching-model''"
    using that by (rule transformUrl_no_rule)
  have b: "transformUrl (transformUrl (''/repositories/'' @ ws)) = transformUrl (''/repositories/'' @ ws)
        \<and> transformUrl (transformUrl (''/workspaces/'' @ ws)) = transformUrl (''/workspaces/'' @ ws)"
    if "plain_segment ws"
    using twice_repo_list[OF that] rewrite_workspace[OF that] by simp
  have c: "transformUrl (transformUrl (''/repositories/'' @ ws @ ''/'' @ repo))
          = transformUrl (''/repositories/'' @ ws @ ''/'' @ repo)"
    if "plain_segment ws" "plain_segment repo"
    using that by (rule twice_single_repo)
  have d: "transformUrl (transformUrl
            (''/repositories/'' @ ws @ ''/'' @ repo @ ''/pullrequests'' @ path_of_segments ss))
          = transformUrl
            (''/repositories/'' @ ws @ ''/'' @ repo @ ''/pullrequests'' @ path_of_segments ss)"
    if "plain_segment ws" "plain_segment repo" "list_all plain_segment ss"
    using rewrite_pull_request_paths(1)[OF that(1) that(2) that(1) that(3)]
      server_pull_request_paths_fixed(1)[OF that(1) that(2) that(1) that(3)]
    by simp
  have e: "transformUrl (transformUrl
            (''/repositories/'' @ ws @ ''/'' @ repo @ ''/pullrequests/'' @ pid @ ''/'' @ sub))
          = transformUrl
            (''/repositories/'' @ ws @ ''/'' @ repo @ ''/pullrequests/'' @ pid @ ''/'' @ sub)"
    if p: "plain_segment ws" "plain_segment repo" "plain_segment pid"
      and s: "sub \<in> set [''diffstat'', ''diff'', ''comments'', ''activity'']"
  proof -
    have nil: "list_all plain_segment []" by simp
    note first = rewrite_pull_request_paths(2-5)[OF p nil]
    note fixed = server_pull_request_paths_fixed(2-4)[OF p nil]
    from s consider "sub = ''diffstat''" | "sub = ''diff''" | "sub = ''comments''"
      | "sub = ''activity''" by auto
    then show ?thesis
    proof cases
      case 1
      then show ?thesis using first(1) fixed(1) by simp
    next
      case 2
      then show ?thesis using first(2) fixed(2) by simp
    next
      case 3
      then show ?thesis using first(3) fixed(3) by simp
    next
      case 4
      then show ?thesis using first(4) fixed(3) by simp
    qed
  qed
  from a b c d e show ?thesis by blast
qed

theorem rewrite_twice_witness:
  "transformUrl (transformUrl ''/repositories/ws1/repo1/branching-model'')
     = transformUrl ''/repositories/ws1/repo1/branching-model''
   \<and> transformUrl (transformUrl ''/repositories/ws1'') = transformUrl ''/repositories/ws1''
   \<and> transformUrl (transformUrl ''/workspaces/ws1'') = transformUrl ''/workspaces/ws1''
   \<and> transformUrl (transformUrl ''/repositories/ws1/repo1'') = transformUrl ''/repositories/ws1/repo1''
   \<and> transformUrl (transformUrl ''/repositories/ws1/repo1/pullrequests/5/merge'')
     = transformUrl ''/repositories/ws1/repo1/pullrequests/5/merge''
   \<and> transformUrl (transformUrl ''/repositories/ws1/repo1/pullrequests/5/comments'')
     = transformUrl ''/repositories/ws1/repo1/pullrequests/5/comments''"
proof -
  have e: "transformUrl ''/repositories/ws1/repo1/branching-model''
             = ''/repositories/ws1/repo1/restrictions''"
    by (simp add: transformUrl_def match_one_segment_def match_single_repo_def
          match_repo_prefix_def segment_def after_segment_def not_slash_def)
  have h: "match_one_segment ''/repositories/'' ''/repositories/ws1/repo1/restrictions'' = None"
    "match_single_repo ''/repositories/ws1/repo1/restrictions'' = None"
    "match_one_segment ''/workspaces/'' ''/repositories/ws1/repo1/restrictions'' = None"
    by (simp_all add: match_one_segment_def match_single_repo_def match_repo_prefix_def
          segment_def after_segment_def not_slash_def)
  have p: "plain_segment ''ws1''" "plain_segment ''repo1''" "plain_segment ''5''"
    "list_all plain_segment [''5'', ''merge'']"
    by (simp_all add: plain_segment_def)
  show ?thesis
    using rewrite_twice [of "''/repositories/ws1/repo1/branching-model''" "''ws1''" "''repo1''"
                            "[''5'', ''merge'']" "''5''" "''comments''"]
      e h p
    by simp
qed

text \<open>
  The rewriter is not idempotent on every path: the repository named \<^verbatim>\<open>pullrequests\<close> is
  rewritten by the single-repository rule, and its result by the pull-request rule.
\<close>

theorem rewrite_twice_counterexample:
  "transformUrl ''/repositories/ws1/pullrequests'' = ''/rest/api/1.0/projects/ws1/repos/pullrequests''
   \<and> transformUrl (transformUrl ''/repositories/ws1/pullrequests'')
       = ''/rest/api/1.0/projects/ws1/repos/pull-requests''
   \<and> transformUrl (transformUrl ''/repositories/ws1/pullrequests'')
       \<noteq> transformUrl ''/repositories/ws1/pullrequests''"
  by (simp add: transformUrl_def match_one_segment_def match_single_repo_def
        match_repo_prefix_def replace_repo_prefix_def segment_def after_segment_def not_slash_def)

subsection \<open>File changes\<close>

lemma those_map_total:
  "(\<And>x. x \<in> set xs \<Longrightarrow> g x = Some (f x)) \<Longrightarrow> those (map g xs) = Some (map f xs)"
  by (induction xs) simp_all

lemma change_of_fields:
  "\<not> nullish c \<Longrightarrow>
   change_of c =
     Some (JObj [(''status'', js_or (opt_get c ''type'') (JStr ''modified'')),
                 (''new'', if truthy (opt_get c ''path'')
                           then JObj [(''path'', opt_get (opt_get c ''path'') ''toString'')]
                           else JNull),
                 (''old'', if truthy (opt_get c ''srcPath'')
                           then JObj [(''path'', opt_get (opt_get c ''srcPath'') ''toString'')]
                           else JNull),
                 (''lines_added'', js_or (opt_get c ''linesAdded'') (JNum 0)),
                 (''lines_removed'', js_or (opt_get c ''linesRemoved'') (JNum 0))])"
  by (simp add: change_of_def get_def path_of_def)

text \<open>
  C3, as amended. For a paginated response whose request URL contains \<^verbatim>\<open>/pull-requests/\<close> and
  \<^verbatim>\<open>/changes\<close> and on which no other block of the normalizer fires (the URL does not contain
  \<^verbatim>\<open>/activities\<close>, and contains \<^verbatim>\<open>/repos\<close> or not \<^verbatim>\<open>/projects\<close>), every entry becomes a
  file-change record: \<^verbatim>\<open>status\<close> is the backend \<^verbatim>\<open>type\<close>, or \<^verbatim>\<open>modified\<close> when that is absent;
  \<^verbatim>\<open>new.path\<close> is the \<^verbatim>\<open>toString\<close> property of the backend \<^verbatim>\<open>path\<close> value and \<^verbatim>\<open>old.path\<close> the
  \<^verbatim>\<open>toString\<close> property of \<^verbatim>\<open>srcPath\<close>, with \<^verbatim>\<open>new\<close> or \<^verbatim>\<open>old\<close> being \<^verbatim>\<open>null\<close> when the field is
  absent; \<^verbatim>\<open>lines_added\<close> and \<^verbatim>\<open>lines_removed\<close> are the backend counts, or zero when absent.
\<close>

theorem changes_normalized:
  assumes pr: "js_includes url ''/pull-requests/''"
    and ch: "js_includes url ''/changes''"
    and act: "\<not> js_includes url ''/activities''"
    and prj: "js_includes url ''/repos'' \<or> \<not> js_includes url ''/projects''"
    and vals: "map_of payload ''values'' = Some (JArr changes)"
    and objs: "list_all (\<lambda>c. \<not> nullish c) changes"
  shows "transformPaginatedResponse baseUrl url (JObj payload) =
           Some (JObj (AList.update ''values''
             (JArr (map (\<lambda>c.
                JObj [(''status'', js_or (opt_get c ''type'') (JStr ''modified'')),
                      (''new'', if truthy (opt_get c ''path'')
                                then JObj [(''path'', opt_get (opt_get c ''path'') ''toString'')]
                                else JNull),
                      (''old'', if truthy (opt_get c ''srcPath'')
                                then JObj [(''path'', opt_get (opt_get c ''srcPath'') ''toString'')]
                                else JNull),
                      (''lines_added'', js_or (opt_get c ''linesAdded'') (JNum 0)),
                      (''lines_removed'', js_or (opt_get c ''linesRemoved'') (JNum 0))])
                changes))
             payload))"
proof -
  have pr': "js_includes url ''/pull-requests''"
    using js_includes_longer[of url "''/pull-requests''" "''/''"] pr by simp
  have "those (map change_of changes) = Some (map (\<lambda>c.
                JObj [(''status'', js_or (opt_get c ''type'') (JStr ''modified'')),
                      (''new'', if truthy (opt_get c ''path'')
                                then JObj [(''path'', opt_get (opt_get c ''path'') ''toString'')]
                                else JNull),
                      (''old'', if truthy (opt_get c ''srcPath'')
                                then JObj [(''path'', opt_get (opt_get c ''srcPath'') ''toString'')]
                                else JNull),
                      (''lines_added'', js_or (opt_get c ''linesAdded'') (JNum 0)),
                      (''lines_removed'', js_or (opt_get c ''linesRemoved'') (JNum 0))])
                changes)"
    using objs by (intro those_map_total change_of_fields) (simp add: list_all_iff)
  then have "map_values change_of (JObj payload) = Some (JObj (AList.update ''values''
             (JArr (map (\<lambda>c.
                JObj [(''status'', js_or (opt_get c ''type'') (JStr ''modified'')),
                      (''new'', if truthy (opt_get c ''path'')
                                then JObj [(''path'', opt_get (opt_get c ''path'') ''toString'')]
                                else JNull),
                      (''old'', if truthy (opt_get c ''srcPath'')
                                then JObj [(''path'', opt_get (opt_get c ''srcPath'') ''toString'')]
                                else JNull),
                      (''lines_added'', js_or (opt_get c ''linesAdded'') (JNum 0)),
                      (''lines_removed'', js_or (opt_get c ''linesRemoved'') (JNum 0))])
                changes))
             payload))"
    using vals by (simp add: map_values_def get_def js_map_def)
  then show ?thesis
    using pr pr' ch act prj by (auto simp: transformPaginatedResponse_def)
qed

theorem changes_normalized_witness:
  "js_includes ''/rest/api/1.0/projects/P/repos/r/pull-requests/5/changes'' ''/pull-requests/''
   \<and> js_includes ''/rest/api/1.0/projects/P/repos/r/pull-requests/5/changes'' ''/changes''
   \<and> transformPaginatedResponse ''https://git.example.com''
        ''/rest/api/1.0/projects/P/repos/r/pull-requests/5/changes''
        (JObj [(''values'',
                JArr [JObj [(''type'', JStr ''MOVE''),
                            (''path'', JObj [(''name'', JStr ''a.ts''),
                                             (''toString'', JStr ''src/a.ts'')]),
                            (''srcPath'', JObj [(''toString'', JStr ''lib/a.ts'')]),
                            (''linesAdded'', JNum 3)],
                      JObj [(''path'', JObj [(''toString'', JStr ''b.txt'')])]]),
               (''isLastPage'', JBool True)])
      = Some (JObj [(''values'',
                JArr [JObj [(''status'', JStr ''MOVE''),
                            (''new'', JObj [(''path'', JStr ''src/a.ts'')]),
                            (''old'', JObj [(''path'', JStr ''lib/a.ts'')]),
                            (''lines_added'', JNum 3),
                            (''lines_removed'', JNum 0)],
                      JObj [(''status'', JStr ''modified''),
                            (''new'', JObj [(''path'', JStr ''b.txt'')]),
                            (''old'', JNull),
                            (''lines_added'', JNum 0),
                            (''lines_removed'', JNum 0)]]),
               (''isLastPage'', JBool True)])"
proof -
  let ?url = "''/rest/api/1.0/projects/P/repos/r/pull-requests/5/changes''"
  let ?changes = "[JObj [(''type'', JStr ''MOVE''),
                            (''path'', JObj [(''name'', JStr ''a.ts''),
                                             (''toString'', JStr ''src/a.ts'')]),
                            (''srcPath'', JObj [(''toString'', JStr ''lib/a.ts'')]),
                            (''linesAdded'', JNum 3)],
                      JObj [(''path'', JObj [(''toString'', JStr ''b.txt'')])]]"
  let ?payload = "[(''values'', JArr ?changes), (''isLastPage'', JBool True)]"
  have 1: "js_includes ?url ''/pull-requests/''" by simp
  have 2: "js_includes ?url ''/changes''" by simp
  have 3: "\<not> js_includes ?url ''/activities''" by simp
  have 4: "js_includes ?url ''/repos'' \<or> \<not> js_includes ?url ''/projects''" by simp
  have 5: "map_of ?payload ''values'' = Some (JArr ?changes)" by simp
  have 6: "list_all (\<lambda>c. \<not> nullish c) ?changes" by simp
  show ?thesis
    using 1 2 changes_normalized [OF 1 2 3 4 5 6, of "''https://git.example.com''"]
    by (simp add: js_or_def)
qed

text \<open>
  The path of a record is not the backend \<^verbatim>\<open>path\<close> field itself: for a Server path object
  it is the object's \<^verbatim>\<open>toString\<close> member, and for a path given as a string it is the
  inherited \<^verbatim>\<open>toString\<close> method, since the source reads the property without calling it.
\<close>

theorem changes_path_counterexample:
  "map_option (\<lambda>r. map (\<lambda>c. opt_get (opt_get c ''new'') ''path'')
                     (case opt_get r ''values'' of JArr cs \<Rightarrow> cs | _ \<Rightarrow> []))
     (transformPaginatedResponse ''https://git.example.com''
        ''/rest/api/1.0/projects/P/repos/r/pull-requests/5/changes''
        (JObj [(''values'',
                JArr [JObj [(''type'', JStr ''MODIFY''),
                            (''path'', JObj [(''name'', JStr ''a.ts''),
                                             (''toString'', JStr ''src/a.ts'')])],
                      JObj [(''type'', JStr ''ADD''), (''path'', JStr ''src/b.ts'')]])]))
   = Some [JStr ''src/a.ts'', JFun ''toString'']
   \<and> JStr ''src/a.ts'' \<noteq> JObj [(''name'', JStr ''a.ts''), (''toString'', JStr ''src/a.ts'')]
   \<and> JFun ''toString'' \<noteq> JStr ''src/b.ts''"
  by (simp add: transformPaginatedResponse_def map_values_def get_def js_map_def change_of_def
        path_of_def js_or_def)

subsection \<open>Activities\<close>

text \<open>
  When only the activities block fires, its result is the comment reading of the
  \<^verbatim>\<open>COMMENTED\<close> entries if there is one, and the log reading of every entry otherwise; a log
  entry has a \<^verbatim>\<open>comment\<close> key exactly for \<^verbatim>\<open>COMMENTED\<close> and an \<^verbatim>\<open>approval\<close> key exactly for
  \<^verbatim>\<open>APPROVED\<close> and \<^verbatim>\<open>UNAPPROVED\<close>.
\<close>

lemma filter_list_commented:
  "list_all (\<lambda>a. \<not> nullish a) acts \<Longrightarrow>
   filter_list is_commented acts
     = Some (filter (\<lambda>a. opt_get a ''action'' = JStr ''COMMENTED'') acts)"
  by (induction acts) (simp_all add: is_commented_def get_def)

lemma those_map_length: "those (map g xs) = Some ys \<Longrightarrow> length ys = length xs"
proof (induction xs arbitrary: ys)
  case Nil
  then show ?case by simp
next
  case (Cons x xs)
  then show ?case by (auto split: option.splits)
qed

lemma activities_dispatch:
  assumes pr: "js_includes url ''/pull-requests/''"
    and act: "js_includes url ''/activities''"
    and ch: "\<not> js_includes url ''/changes''"
    and prj: "js_includes url ''/repos'' \<or> \<not> js_includes url ''/projects''"
    and vals: "map_of payload ''values'' = Some (JArr acts)"
    and objs: "list_all (\<lambda>a. \<not> nullish a) acts"
    and comments: "those (map comment_of (filter (\<lambda>a. opt_get a ''action'' = JStr ''COMMENTED'') acts))
                     = Some cs"
    and entries: "those (map activity_of acts) = Some es"
  shows "transformPaginatedResponse baseUrl url (JObj payload)
           = Some (JObj (AList.update ''values''
                (JArr (if list_ex (\<lambda>a. opt_get a ''action'' = JStr ''COMMENTED'') acts then cs else es))
                payload))"
proof -
  have pr': "js_includes url ''/pull-requests''"
    using js_includes_longer[of url "''/pull-requests''" "''/''"] pr by simp
  have len: "length cs = length (filter (\<lambda>a. opt_get a ''action'' = JStr ''COMMENTED'') acts)"
    using comments by (rule those_map_length)
  have "cs = [] \<longleftrightarrow> filter (\<lambda>a. opt_get a ''action'' = JStr ''COMMENTED'') acts = []"
    using len by (metis length_0_conv)
  then have "cs \<noteq> [] \<longleftrightarrow> list_ex (\<lambda>a. opt_get a ''action'' = JStr ''COMMENTED'') acts"
    by (simp add: filter_empty_conv list_ex_iff)
  then have "activities_block (JObj payload)
           = Some (JObj (AList.update ''values''
                (JArr (if list_ex (\<lambda>a. opt_get a ''action'' = JStr ''COMMENTED'') acts then cs else es))
                payload))"
    using vals comments entries filter_list_commented[OF objs]
    by (simp add: activities_block_def get_def js_or_def js_filter_def js_map_def js_length_def)
  then show ?thesis
    using pr pr' act ch prj by (auto simp: transformPaginatedResponse_def)
qed

lemma comment_of_total:
  assumes "\<not> nullish a"
    and "to_string (js_or (opt_get (opt_get a ''user'') ''id'')
                      (opt_get (opt_get (opt_get a ''comment'') ''author'') ''id'')) = Some uid"
  shows "\<exists>c. comment_of a = Some (JObj c) \<and> map_of c ''type'' = Some (JStr ''pullrequest_comment'')"
  using assms by (simp add: comment_of_def get_def Let_def)

lemma activity_of_keys:
  assumes "activity_of a = Some e"
  shows "\<exists>kvs. e = JObj kvs
          \<and> has_key kvs ''update''
          \<and> (has_key kvs ''comment'' \<longleftrightarrow> opt_get a ''action'' = JStr ''COMMENTED'')
          \<and> (has_key kvs ''approval'' \<longleftrightarrow>
               opt_get a ''action'' = JStr ''APPROVED'' \<or> opt_get a ''action'' = JStr ''UNAPPROVED'')"
  using assms
  by (auto simp: activity_of_def get_def Let_def has_key_def split: if_splits Option.bind_splits)

lemma spec_example_two_comments:
  "map_option (\<lambda>r. js_length (opt_get r ''values''))
     (transformPaginatedResponse ''https://git.example.com''
        ''/rest/api/1.0/projects/P/repos/r/pull-requests/5/activities''
        (JObj [(''values'',
                JArr [JObj [(''action'', JStr ''COMMENTED''), (''comment'', JObj [(''text'', JStr ''a'')])],
                      JObj [(''action'', JStr ''APPROVED'')],
                      JObj [(''action'', JStr ''COMMENTED''), (''comment'', JObj [(''text'', JStr ''b'')])]])]))
   = Some 2"
  by (simp add: transformPaginatedResponse_def map_values_def activities_block_def get_def
        js_map_def js_filter_def js_or_def is_commented_def
        comment_of_def activity_of_def js_length_def braces_def Let_def)

text \<open>
  C2. For a paginated response whose request URL contains \<^verbatim>\<open>/pull-requests/\<close> and
  \<^verbatim>\<open>/activities\<close>, the values are to be the \<^verbatim>\<open>COMMENTED\<close> entries as comments when there is one
  (two entries for the actions \<^verbatim>\<open>COMMENTED\<close>, \<^verbatim>\<open>APPROVED\<close>, \<^verbatim>\<open>COMMENTED\<close>). They are not for
  every such URL: the blocks for \<^verbatim>\<open>/changes\<close> and \<^verbatim>\<open>/activities\<close> do not exclude each other, so
  for the comments of a pull request of the repository named \<^verbatim>\<open>changes\<close> the entries are first
  turned into file-change records, none of which is \<^verbatim>\<open>COMMENTED\<close>, and the result is three
  log entries without any content.
\<close>

theorem comments_of_repository_named_changes:
  "transformUrl ''/repositories/P/changes/pullrequests/5/comments''
     = ''/rest/api/1.0/projects/P/repos/changes/pull-requests/5/activities''
   \<and> transformPaginatedResponse ''https://git.example.com''
     ''/rest/api/1.0/projects/P/repos/changes/pull-requests/5/activities''
     (JObj [(''values'',
             JArr [JObj [(''action'', JStr ''COMMENTED''), (''comment'', JObj [(''text'', JStr ''a'')])],
                   JObj [(''action'', JStr ''APPROVED'')],
                   JObj [(''action'', JStr ''COMMENTED''), (''comment'', JObj [(''text'', JStr ''b'')])]])])
   = Some (JObj [(''values'',
             JArr [JObj [(''update'',
                          JObj [(''date'', JUndefined),
                                (''author'', JObj [(''uuid'', JStr ''{undefined}''),
                                                   (''display_name'', JUndefined),
                                                   (''account_id'', JUndefined)])])],
                   JObj [(''update'',
                          JObj [(''date'', JUndefined),
                                (''author'', JObj [(''uuid'', JStr ''{undefined}''),
                                                   (''display_name'', JUndefined),
                                                   (''account_id'', JUndefined)])])],
                   JObj [(''update'',
                          JObj [(''date'', JUndefined),
                                (''author'', JObj [(''uuid'', JStr ''{undefined}''),
                                                   (''display_name'', JUndefined),
                                                   (''account_id'', JUndefined)])])]])])"
proof -
  have url: "transformUrl ''/repositories/P/changes/pullrequests/5/comments''
     = ''/rest/api/1.0/projects/P/repos/changes/pull-requests/5/activities''"
    by (simp add: transformUrl_def match_one_segment_def match_single_repo_def
          match_repo_prefix_def replace_repo_prefix_def segment_def after_segment_def
          not_slash_def)
  show ?thesis
    unfolding url
    by (simp add: transformPaginatedResponse_def map_values_def activities_block_def get_def
          js_map_def js_filter_def change_of_def path_of_def js_or_def is_commented_def
          comment_of_def activity_of_def js_length_def braces_def Let_def)
qed

subsection \<open>Errors\<close>

text \<open>
  With a first entry other than \<^verbatim>\<open>null\<close> the payload is replaced and the error rejected;
  without a truthy \<^verbatim>\<open>errors\<close> field the error is rejected as it came; the hook never fulfils.
\<close>

lemma error_body_fields:
  "\<not> nullish e \<Longrightarrow>
   error_body e =
     Some (JObj [(''type'', JStr ''error''),
                 (''error'',
                    JObj [(''message'', js_or (opt_get e ''message'') (opt_get e ''exceptionName'')),
                          (''detail'', js_or (opt_get e ''context'') (opt_get e ''message''))])])"
  by (simp add: error_body_def get_def)

lemma transformError_first_entry:
  assumes "error = JObj members"
    and "map_of members ''response'' = Some (JObj response)"
    and "map_of response ''data'' = Some (JObj payload)"
    and "map_of payload ''errors'' = Some (JArr (e # es))"
    and "\<not> nullish e"
  shows "transformError error =
           Rejected (JObj (AList.update ''response''
             (JObj (AList.update ''data''
                (JObj [(''type'', JStr ''error''),
                       (''error'',
                          JObj [(''message'',
                                   js_or (opt_get e ''message'') (opt_get e ''exceptionName'')),
                                (''detail'',
                                   js_or (opt_get e ''context'') (opt_get e ''message''))])])
                response))
             members))"
  using assms by (simp add: transformError_def reshape_error_def get_def error_body_fields)

lemma transformError_no_errors:
  assumes "\<not> nullish error"
    and "\<not> truthy (opt_get (opt_get (opt_get error ''response'') ''data'') ''errors'')"
  shows "transformError error = Rejected error"
  using assms by (auto simp: transformError_def reshape_error_def get_def Let_def)

lemma transformError_never_fulfilled: "transformError error \<noteq> Fulfilled v"
  by (simp add: transformError_def split: option.splits)

lemma error_payload_example:
  "transformError
     (JObj [(''response'',
             JObj [(''data'',
                    JObj [(''errors'',
                           JArr [JObj [(''message'', JStr ''X''), (''context'', JStr ''Y'')]])])])])
   = Rejected
       (JObj [(''response'',
               JObj [(''data'',
                      JObj [(''type'', JStr ''error''),
                            (''error'', JObj [(''message'', JStr ''X''),
                                              (''detail'', JStr ''Y'')])])])])"
  by (simp add: transformError_def reshape_error_def get_def error_body_def js_or_def)

text \<open>
  C4. A failed call whose payload has an \<^verbatim>\<open>errors\<close> list is to have the payload replaced by
  \<^verbatim>\<open>{ type: "error", error: { message, detail } }\<close>, taken from the first entry, and the failure
  is to be re-raised in every case. For the empty list, which is truthy, the hook reads
  \<^verbatim>\<open>message\<close> of the missing first entry: it throws a \<^verbatim>\<open>TypeError\<close>, the payload is not replaced
  and the caller receives the \<^verbatim>\<open>TypeError\<close> instead of the failure of the call.
\<close>

theorem empty_errors_list_throws:
  "transformError
     (JObj [(''message'', JStr ''Request failed with status code 404''),
            (''response'', JObj [(''status'', JNum 404),
                                 (''data'', JObj [(''errors'', JArr [])])])])
   = Thrown"
  by (simp add: transformError_def reshape_error_def get_def error_body_def)

end
